theory Spec2Isabelle
  imports Complex_Main
begin

section \<open>The magnetic grid of \<^verbatim>\<open>src/main.ts\<close>\<close>

text \<open>
  The program draws a grid of markers over the viewport and, on every animation frame,
  pulls each marker towards the pointer.  It is one module of global variables, three
  functions (\<^verbatim>\<open>generateGrid\<close>, \<^verbatim>\<open>animate\<close>, \<^verbatim>\<open>startAnimation\<close>) and three event
  listeners.  The embedding keeps that shape: the globals and the part of the browser the
  module touches are one record, and every function is a function from state to state.

  Numbers.  A TypeScript \<^verbatim>\<open>number\<close> is modelled as a \<^typ>\<open>real\<close>: arithmetic is exact, there
  is no rounding, no infinity and no NaN.  Every comparison, branch and assignment of the
  source is kept as written.
\<close>

subsection \<open>Constants (lines 3-6)\<close>

definition CELL_SIZE :: real where
  "CELL_SIZE = 50"

definition PULL_DISTANCE :: real where
  "PULL_DISTANCE = 600"

definition PULL_STRENGTH :: real where
  "PULL_STRENGTH = 0.4"

definition EPSILON :: real where
  "EPSILON = 0.01"

subsection \<open>Data (lines 8-23)\<close>

text \<open>
  Elements of the document are objects the program holds references to: a grid point and
  the container's child list name the same element.  References are numbers into a store.
\<close>

type_synonym ref = nat

text \<open>
  The fields of an \<^verbatim>\<open>HTMLElement\<close> that the module assigns.  \<^verbatim>\<open>style.left\<close> and \<^verbatim>\<open>style.top\<close>
  hold the number of pixels; \<^verbatim>\<open>style.transform\<close> holds the two arguments of \<^verbatim>\<open>translate\<close>, and
  is \<open>None\<close> until it is first assigned; \<^verbatim>\<open>dataset['ox']\<close> and \<^verbatim>\<open>dataset['oy']\<close> hold the
  number whose decimal text was stored, and are \<open>None\<close> while the attribute is absent.
\<close>

record HTMLElement =
  textContent :: string
  stylePosition :: string
  styleLeft :: real
  styleTop :: real
  className :: string
  styleTransform :: "(real \<times> real) option"
  datasetOx :: "real option"
  datasetOy :: "real option"

record GridPoint =
  x :: real
  y :: real
  offsetX :: real
  offsetY :: real
  element :: ref

text \<open>One touch point of a \<^verbatim>\<open>TouchEvent\<close>.\<close>

record Touch =
  clientX :: real
  clientY :: real

text \<open>
  The module's variables, followed by the browser state it reads and writes:
  the viewport size, the child list of the container \<^verbatim>\<open>#bg\<close>, the element store with its
  allocation counter, the queue of requested animation frames (each requests \<^verbatim>\<open>animate\<close>)
  with the last handle handed out, and the sequence of assignments to \<^verbatim>\<open>style.transform\<close>
  made so far (element, x, y), which is what the page shows moving.
\<close>

record State =
  mouseX :: real
  mouseY :: real
  lastMouseX :: real
  lastMouseY :: real
  isAnimating :: bool
  rafId :: nat
  gridPoints :: "GridPoint list"
  innerWidth :: real
  innerHeight :: real
  children :: "ref list"
  elements :: "ref \<Rightarrow> HTMLElement"
  nextElement :: ref
  pendingFrames :: "nat list"
  lastHandle :: nat
  transformWrites :: "(ref \<times> real \<times> real) list"

subsection \<open>The browser functions the module calls\<close>

text \<open>
  \<^verbatim>\<open>requestAnimationFrame(animate)\<close> queues one call of \<^verbatim>\<open>animate\<close> for the next frame and
  returns a handle never returned before; \<^verbatim>\<open>cancelAnimationFrame(h)\<close> removes the request
  with that handle, if it is still queued.
\<close>

definition requestAnimationFrame :: "State \<Rightarrow> nat \<times> State" where
  "requestAnimationFrame s =
     (let h = Suc (lastHandle s)
      in (h, s\<lparr>lastHandle := h, pendingFrames := pendingFrames s @ [h]\<rparr>))"

definition cancelAnimationFrame :: "nat \<Rightarrow> State \<Rightarrow> State" where
  "cancelAnimationFrame h s = s\<lparr>pendingFrames := removeAll h (pendingFrames s)\<rparr>"

text \<open>
  \<^verbatim>\<open>Math.atan2(y, x)\<close>: the angle of the point \<open>(x, y)\<close> in \<open>(-\<pi>, \<pi>]\<close>, and \<open>0\<close> at the origin
  (the differences the program passes are never a negative zero).
\<close>

definition atan2 :: "real \<Rightarrow> real \<Rightarrow> real" where
  "atan2 b a =
     (if 0 < a then arctan (b / a)
      else if a < 0 \<and> 0 \<le> b then arctan (b / a) + pi
      else if a < 0 \<and> b < 0 then arctan (b / a) - pi
      else if 0 < b then pi / 2
      else if b < 0 then - (pi / 2)
      else 0)"

text \<open>\<^verbatim>\<open>parseFloat(element.dataset[k] || '0')\<close>: an absent attribute reads as \<open>0\<close>.\<close>

definition parseDataset :: "real option \<Rightarrow> real" where
  "parseDataset d = (case d of None \<Rightarrow> 0 | Some v \<Rightarrow> v)"

subsection \<open>\<^verbatim>\<open>generateGrid\<close> (lines 31-52)\<close>

text \<open>The body of the inner loop (lines 37-49): one new element and one new grid point.\<close>

definition createGridPoint :: "nat \<Rightarrow> nat \<Rightarrow> State \<Rightarrow> State" where
  "createGridPoint row col s =
     (let px = real col * CELL_SIZE;
          py = real row * CELL_SIZE;
          r = nextElement s;
          el = \<lparr>textContent = ''+'', stylePosition = ''absolute'', styleLeft = px,
                styleTop = py, className = ''grid-point'', styleTransform = None,
                datasetOx = None, datasetOy = None\<rparr>
      in s\<lparr>nextElement := Suc r,
            elements := (elements s)(r := el),
            children := children s @ [r],
            gridPoints := gridPoints s @
              [\<lparr>x = px, y = py, offsetX = 0, offsetY = 0, element = r\<rparr>]\<rparr>)"

text \<open>
  \<^verbatim>\<open>rowMax\<close> and \<^verbatim>\<open>colMax\<close> are integers; a counter that starts at \<open>0\<close> and runs while it is
  below the bound takes the values \<open>0, \<dots>, bound - 1\<close>, and none when the bound is not
  positive.
\<close>

definition rowMax :: "State \<Rightarrow> int" where
  "rowMax s = \<lceil>innerHeight s / CELL_SIZE\<rceil> + 1"

definition colMax :: "State \<Rightarrow> int" where
  "colMax s = \<lceil>innerWidth s / CELL_SIZE\<rceil> + 1"

definition generateGrid :: "State \<Rightarrow> State" where
  "generateGrid s =
     fold (\<lambda>row. fold (\<lambda>col. createGridPoint row col) [0..<nat (colMax s)])
       [0..<nat (rowMax s)] s"

subsection \<open>\<^verbatim>\<open>animate\<close> (lines 62-122)\<close>

text \<open>Line 64.\<close>

definition mouseMoved :: "State \<Rightarrow> bool" where
  "mouseMoved s =
     (\<bar>mouseX s - lastMouseX s\<bar> > EPSILON \<or> \<bar>mouseY s - lastMouseY s\<bar> > EPSILON)"

text \<open>Lines 67-69: the distance from the pointer to the centre of the point's cell.\<close>

definition distance :: "real \<Rightarrow> real \<Rightarrow> GridPoint \<Rightarrow> real" where
  "distance mx my p =
     (let dx = mx - (x p + CELL_SIZE / 2);
          dy = my - (y p + CELL_SIZE / 2)
      in sqrt (dx * dx + dy * dy))"

text \<open>Lines 71-79: the displacement the point is pulled towards.\<close>

definition target :: "real \<Rightarrow> real \<Rightarrow> GridPoint \<Rightarrow> real \<times> real" where
  "target mx my p =
     (let dx = mx - (x p + CELL_SIZE / 2);
          dy = my - (y p + CELL_SIZE / 2)
      in if distance mx my p < PULL_DISTANCE
         then (let angle = atan2 dy dx;
                   force = (1 - distance mx my p / PULL_DISTANCE) * PULL_STRENGTH
               in (cos angle * force * CELL_SIZE, sin angle * force * CELL_SIZE))
         else (0, 0))"

text \<open>Line 82: the guard of the update.\<close>

definition needsUpdate :: "bool \<Rightarrow> GridPoint \<Rightarrow> bool" where
  "needsUpdate moved p = (moved \<or> \<bar>offsetX p\<bar> > EPSILON \<or> \<bar>offsetY p\<bar> > EPSILON)"

text \<open>Lines 84-96: easing, decay out of range, and the snap to zero.\<close>

definition settle :: "real \<Rightarrow> real \<Rightarrow> GridPoint \<Rightarrow> GridPoint" where
  "settle mx my p =
     (let newOffsetX = offsetX p + (fst (target mx my p) - offsetX p) * 0.2;
          newOffsetY = offsetY p + (snd (target mx my p) - offsetY p) * 0.2
      in if distance mx my p \<ge> PULL_DISTANCE
         then (let decay = 0.9
               in p\<lparr>offsetX := (if \<bar>newOffsetX\<bar> > EPSILON then newOffsetX * decay else 0),
                     offsetY := (if \<bar>newOffsetY\<bar> > EPSILON then newOffsetY * decay else 0)\<rparr>)
         else p\<lparr>offsetX := (if \<bar>newOffsetX\<bar> > EPSILON then newOffsetX else 0),
                 offsetY := (if \<bar>newOffsetY\<bar> > EPSILON then newOffsetY else 0)\<rparr>)"

text \<open>Lines 99-102: the guard of the write.\<close>

definition transformChanged :: "GridPoint \<Rightarrow> HTMLElement \<Rightarrow> bool" where
  "transformChanged p el =
     (\<bar>offsetX p - parseDataset (datasetOx el)\<bar> > EPSILON \<or>
      \<bar>offsetY p - parseDataset (datasetOy el)\<bar> > EPSILON)"

text \<open>
  The state of the \<^verbatim>\<open>forEach\<close> loop: the points already visited (updated), the flag
  \<^verbatim>\<open>anyChange\<close>, and the program state, of which the callback changes the element store
  and the sequence of transform assignments.
\<close>

type_synonym loop = "GridPoint list \<times> bool \<times> State"

text \<open>The callback of \<^verbatim>\<open>forEach\<close> (lines 66-109) on one point.\<close>

definition animatePoint :: "bool \<Rightarrow> GridPoint \<Rightarrow> loop \<Rightarrow> loop" where
  "animatePoint moved p l =
     (case l of (visited, anyChange, s) \<Rightarrow>
        if needsUpdate moved p
        then (let p' = settle (mouseX s) (mouseY s) p;
                  el = elements s (element p')
              in if transformChanged p' el
                 then (visited @ [p'], True,
                       s\<lparr>elements := (elements s)(element p' :=
                            el\<lparr>styleTransform := Some (offsetX p', offsetY p'),
                               datasetOx := Some (offsetX p'),
                               datasetOy := Some (offsetY p')\<rparr>),
                          transformWrites := transformWrites s @
                            [(element p', offsetX p', offsetY p')]\<rparr>)
                 else (visited @ [p'], anyChange, s))
        else (visited @ [p], anyChange, s))"

definition animate :: "State \<Rightarrow> State" where
  "animate s =
     (let moved = mouseMoved s;
          (points, anyChange, s1) =
             fold (animatePoint moved) (gridPoints s) ([], False, s);
          s2 = s1\<lparr>gridPoints := points, lastMouseX := mouseX s1, lastMouseY := mouseY s1\<rparr>
      in if \<not> anyChange \<and> \<not> moved
         then cancelAnimationFrame (rafId s2) (s2\<lparr>isAnimating := False\<rparr>)
         else (let (h, s3) = requestAnimationFrame s2 in s3\<lparr>rafId := h\<rparr>))"

subsection \<open>\<^verbatim>\<open>startAnimation\<close> (lines 128-133)\<close>

definition startAnimation :: "State \<Rightarrow> State" where
  "startAnimation s =
     (if \<not> isAnimating s
      then (let (h, s1) = requestAnimationFrame (s\<lparr>isAnimating := True\<rparr>)
            in s1\<lparr>rafId := h\<rparr>)
      else s)"

subsection \<open>The event listeners (lines 144-168)\<close>

definition mousemove :: "real \<Rightarrow> real \<Rightarrow> State \<Rightarrow> State" where
  "mousemove ex ey s = startAnimation (s\<lparr>mouseX := ex, mouseY := ey\<rparr>)"

text \<open>\<^verbatim>\<open>e.touches[0]\<close> is \<^verbatim>\<open>undefined\<close>, hence falsy, when the list is empty.\<close>

definition touchstart :: "Touch list \<Rightarrow> State \<Rightarrow> State" where
  "touchstart touches s =
     (case touches of
        [] \<Rightarrow> s
      | touch # _ \<Rightarrow> startAnimation (s\<lparr>mouseX := clientX touch, mouseY := clientY touch\<rparr>))"

text \<open>
  The resize listener reads the viewport the browser has already resized:
  \<^verbatim>\<open>replaceChildren()\<close> empties the container, \<^verbatim>\<open>gridPoints.length = 0\<close> empties the array.
\<close>

definition resize :: "State \<Rightarrow> State" where
  "resize s =
     (let s1 = s\<lparr>children := []\<rparr>;
          s2 = s1\<lparr>gridPoints := []\<rparr>;
          s3 = generateGrid s2
      in if isAnimating s3 then startAnimation s3 else s3)"

text \<open>The browser sets the new viewport size, then runs the listener.\<close>

definition resizeEvent :: "real \<Rightarrow> real \<Rightarrow> State \<Rightarrow> State" where
  "resizeEvent w h s = resize (s\<lparr>innerWidth := w, innerHeight := h\<rparr>)"

text \<open>
  The browser's frame: the requests queued so far are taken off the queue and \<^verbatim>\<open>animate\<close>,
  the callback of each of them, is called once per request.
\<close>

definition frame :: "State \<Rightarrow> State" where
  "frame s = fold (\<lambda>_. animate) (pendingFrames s) (s\<lparr>pendingFrames := []\<rparr>)"

subsection \<open>Loading the module (lines 16-23 and 137)\<close>

text \<open>
  The variables as lines 16-22 initialise them, in a document whose container is still
  empty and whose viewport is \<open>w\<close> by \<open>h\<close> pixels.
\<close>

definition blank :: HTMLElement where
  "blank = \<lparr>textContent = '''', stylePosition = '''', styleLeft = 0, styleTop = 0,
             className = '''', styleTransform = None, datasetOx = None, datasetOy = None\<rparr>"

definition loaded :: "real \<Rightarrow> real \<Rightarrow> State" where
  "loaded w h =
     \<lparr>mouseX = 0, mouseY = 0, lastMouseX = 0, lastMouseY = 0, isAnimating = False,
      rafId = 0, gridPoints = [], innerWidth = w, innerHeight = h, children = [],
      elements = (\<lambda>_. blank), nextElement = 0, pendingFrames = [], lastHandle = 0,
      transformWrites = []\<rparr>"

text \<open>Line 137: the first grid.\<close>

definition initial :: "real \<Rightarrow> real \<Rightarrow> State" where
  "initial w h = generateGrid (loaded w h)"

subsection \<open>Derived notions used to state the properties\<close>

text \<open>
  What one call of the callback does to the record of a point (lines 82-96): the
  update when its guard holds, nothing otherwise.  Lemma \<open>gridPoints_animate\<close> below
  shows that \<^verbatim>\<open>animate\<close> applies it to every point.
\<close>

definition updatePoint :: "bool \<Rightarrow> real \<Rightarrow> real \<Rightarrow> GridPoint \<Rightarrow> GridPoint" where
  "updatePoint moved mx my p = (if needsUpdate moved p then settle mx my p else p)"

text \<open>The length of a point's displacement.\<close>

definition magnitude :: "GridPoint \<Rightarrow> real" where
  "magnitude p = sqrt (offsetX p * offsetX p + offsetY p * offsetY p)"

text \<open>The point is at rest as far as line 82 is concerned.\<close>

definition settled :: "GridPoint \<Rightarrow> bool" where
  "settled p = (\<bar>offsetX p\<bar> \<le> EPSILON \<and> \<bar>offsetY p\<bar> \<le> EPSILON)"

text \<open>
  The points of a grid of \<open>rows\<close> rows and \<open>cols\<close> columns in the order the two loops of
  \<^verbatim>\<open>generateGrid\<close> create them, row by row, the first of them with element \<open>r\<close>: the point
  of row \<open>row\<close> and column \<open>col\<close> is at \<open>(col * CELL_SIZE, row * CELL_SIZE)\<close>, at rest.
\<close>

definition gridRow :: "nat \<Rightarrow> nat \<Rightarrow> ref \<Rightarrow> GridPoint list" where
  "gridRow row cols r =
     map (\<lambda>col. \<lparr>x = real col * CELL_SIZE, y = real row * CELL_SIZE, offsetX = 0,
                  offsetY = 0, element = r + col\<rparr>) [0..<cols]"

definition grid :: "nat \<Rightarrow> nat \<Rightarrow> ref \<Rightarrow> GridPoint list" where
  "grid rows cols r = concat (map (\<lambda>row. gridRow row cols (r + row * cols)) [0..<rows])"

subsection \<open>Runs of the program used as examples\<close>

text \<open>
  All of them start from the module loaded in a viewport of \<open>0\<close> by \<open>0\<close> pixels, whose grid
  is the single point at \<open>(0, 0)\<close>, with centre \<open>(25, 25)\<close>, and go on by events.  Each is
  the state in which the browser, having taken the pending request off its queue, calls
  \<^verbatim>\<open>animate\<close>.
  A larger grid would not change what happens to this point: a step computes each point
  from the pointer and the point's own record (lemma \<open>gridPoints_animate\<close>).

  The point of that grid, displaced by \<open>a\<close> pixels to the right, is \<open>marker a\<close>.
\<close>

definition marker :: "real \<Rightarrow> GridPoint" where
  "marker a = \<lparr>x = 0, y = 0, offsetX = a, offsetY = 0, element = 0\<rparr>"

text \<open>\<open>atCentre\<close>: the pointer has just arrived at the centre of the point.\<close>

definition atCentre :: State where
  "atCentre = (mousemove 25 25 (initial 0 0))\<lparr>pendingFrames := []\<rparr>"

text \<open>\<open>pulledOnce\<close>: one frame later; the pointer has stayed at the centre.\<close>

definition pulledOnce :: State where
  "pulledOnce = (frame (mousemove 25 25 (initial 0 0)))\<lparr>pendingFrames := []\<rparr>"

text \<open>
  \<open>afterResize\<close>: after that first frame the window is resized (to the same size); the
  pointer has stayed at the centre.
\<close>

definition afterResize :: State where
  "afterResize =
     (resizeEvent 0 0 (frame (mousemove 25 25 (initial 0 0))))\<lparr>pendingFrames := []\<rparr>"

text \<open>
  \<open>grazed\<close>: the pointer arrived \<open>598.2\<close> pixels to the right of the centre, one frame has
  run and the pointer has stayed there.
\<close>

definition grazed :: State where
  "grazed = (frame (mousemove 623.2 25 (initial 0 0)))\<lparr>pendingFrames := []\<rparr>"

text \<open>
  \<open>released\<close>: the pointer arrived \<open>598.05\<close> pixels to the right of the centre, one frame
  ran, and the pointer then moved on to \<open>(1000, 25)\<close>, which is \<open>975\<close> pixels from the centre.
\<close>

definition released :: State where
  "released =
     (mousemove 1000 25 (frame (mousemove 623.05 25 (initial 0 0))))\<lparr>pendingFrames := []\<rparr>"

text \<open>\<open>jitter\<close>: the pointer moved by half of \<open>EPSILON\<close> from where it was at load.\<close>

definition jitter :: State where
  "jitter = (mousemove 0.005 0 (initial 0 0))\<lparr>pendingFrames := []\<rparr>"

text \<open>
  \<open>pulledTo t a k\<close>: in state \<open>t\<close> of such a run the pointer is at the centre, where the last
  step left it, the point is displaced by \<open>a\<close>, which is the displacement last written, and
  the driver is running with frame request \<open>k\<close> pending.
\<close>

definition pulledTo :: "State \<Rightarrow> real \<Rightarrow> nat \<Rightarrow> bool" where
  "pulledTo t a k =
     (gridPoints t = [marker a] \<and> mouseX t = 25 \<and> mouseY t = 25 \<and>
      lastMouseX t = 25 \<and> lastMouseY t = 25 \<and> isAnimating t \<and>
      datasetOx (elements t 0) = Some a \<and> datasetOy (elements t 0) = Some 0 \<and>
      pendingFrames t = [k] \<and> rafId t = k \<and> lastHandle t = k)"

section \<open>The loop of \<^verbatim>\<open>animate\<close>\<close>

lemma settle_fixed [simp]:
  "x (settle mx my p) = x p" "y (settle mx my p) = y p" "element (settle mx my p) = element p"
  by (simp_all add: settle_def Let_def)

lemma updatePoint_fixed [simp]:
  "x (updatePoint moved mx my p) = x p" "y (updatePoint moved mx my p) = y p"
  "element (updatePoint moved mx my p) = element p"
  by (simp_all add: updatePoint_def)

lemma animatePoint_cases:
  "\<exists>E W ch'. animatePoint moved p (vis, ch, s) =
     (vis @ [updatePoint moved (mouseX s) (mouseY s) p], ch',
      s\<lparr>elements := E, transformWrites := transformWrites s @ W\<rparr>) \<and>
     (ch' \<longleftrightarrow> ch \<or> W \<noteq> []) \<and> (W = [] \<longrightarrow> E = elements s) \<and>
     (\<forall>r. r \<noteq> element p \<longrightarrow> E r = elements s r) \<and>
     (W \<noteq> [] \<longleftrightarrow> needsUpdate moved p \<and>
        transformChanged (settle (mouseX s) (mouseY s) p) (elements s (element p)))"
proof (cases "needsUpdate moved p \<and>
        transformChanged (settle (mouseX s) (mouseY s) p) (elements s (element p))")
  case True
  let ?p = "settle (mouseX s) (mouseY s) p"
  let ?E = "(elements s)(element p := (elements s (element p))\<lparr>styleTransform := Some (offsetX ?p, offsetY ?p),
                               datasetOx := Some (offsetX ?p),
                               datasetOy := Some (offsetY ?p)\<rparr>)"
  show ?thesis
    apply (rule exI [of _ ?E])
    apply (rule exI [of _ "[(element p, offsetX ?p, offsetY ?p)]"])
    apply (rule exI [of _ True])
    using True by (simp add: animatePoint_def updatePoint_def Let_def)
next
  case False
  show ?thesis
    apply (rule exI [of _ "elements s"])
    apply (rule exI [of _ "[]"])
    apply (rule exI [of _ ch])
    using False by (auto simp add: animatePoint_def updatePoint_def Let_def)
qed

lemma fold_animatePoint:
  "\<exists>E W ch'. fold (animatePoint moved) ps (vis, ch, s) =
     (vis @ map (updatePoint moved (mouseX s) (mouseY s)) ps, ch',
      s\<lparr>elements := E, transformWrites := transformWrites s @ W\<rparr>) \<and>
     (ch' \<longleftrightarrow> ch \<or> W \<noteq> []) \<and> (W = [] \<longrightarrow> E = elements s) \<and>
     (\<forall>r. r \<notin> element ` set ps \<longrightarrow> E r = elements s r)"
proof (induction ps arbitrary: vis ch s)
  case Nil
  show ?case
    apply (rule exI [of _ "elements s"])
    apply (rule exI [of _ "[]"])
    apply (rule exI [of _ ch])
    by simp
next
  case (Cons p ps)
  obtain E1 W1 ch1 where
    step: "animatePoint moved p (vis, ch, s) =
       (vis @ [updatePoint moved (mouseX s) (mouseY s) p], ch1,
        s\<lparr>elements := E1, transformWrites := transformWrites s @ W1\<rparr>)"
    and ch1: "ch1 \<longleftrightarrow> ch \<or> W1 \<noteq> []" and E1: "W1 = [] \<longrightarrow> E1 = elements s"
    and F1: "\<forall>r. r \<noteq> element p \<longrightarrow> E1 r = elements s r"
    using animatePoint_cases [of moved p vis ch s] by blast
  let ?s1 = "s\<lparr>elements := E1, transformWrites := transformWrites s @ W1\<rparr>"
  obtain E2 W2 ch2 where
    rest: "fold (animatePoint moved) ps (vis @ [updatePoint moved (mouseX s) (mouseY s) p], ch1, ?s1) =
       ((vis @ [updatePoint moved (mouseX s) (mouseY s) p]) @
          map (updatePoint moved (mouseX ?s1) (mouseY ?s1)) ps, ch2,
        ?s1\<lparr>elements := E2, transformWrites := transformWrites ?s1 @ W2\<rparr>)"
    and ch2: "ch2 \<longleftrightarrow> ch1 \<or> W2 \<noteq> []" and E2: "W2 = [] \<longrightarrow> E2 = elements ?s1"
    and F2: "\<forall>r. r \<notin> element ` set ps \<longrightarrow> E2 r = elements ?s1 r"
    using Cons.IH [of "vis @ [updatePoint moved (mouseX s) (mouseY s) p]" ch1 ?s1] by blast
  show ?case
    apply (rule exI [of _ E2])
    apply (rule exI [of _ "W1 @ W2"])
    apply (rule exI [of _ ch2])
    using step rest ch1 ch2 E1 E2 F1 F2 by auto
qed

lemma fold_animatePoint_quiet:
  "\<forall>p\<in>set ps. \<not> (needsUpdate moved p \<and>
       transformChanged (settle (mouseX s) (mouseY s) p) (elements s (element p))) \<Longrightarrow>
   fold (animatePoint moved) ps (vis, ch, s) =
     (vis @ map (updatePoint moved (mouseX s) (mouseY s)) ps, ch, s)"
proof (induction ps arbitrary: vis)
  case Nil
  show ?case by simp
next
  case (Cons p ps)
  have "animatePoint moved p (vis, ch, s) =
      (vis @ [updatePoint moved (mouseX s) (mouseY s) p], ch, s)"
    using Cons.prems by (auto simp add: animatePoint_def updatePoint_def Let_def)
  then show ?case
    using Cons.IH [of "vis @ [updatePoint moved (mouseX s) (mouseY s) p]"] Cons.prems
    by simp
qed

lemma animate_cases:
  "\<exists>E W. animate s =
     (if W = [] \<and> \<not> mouseMoved s
      then s\<lparr>gridPoints := map (updatePoint (mouseMoved s) (mouseX s) (mouseY s)) (gridPoints s),
             lastMouseX := mouseX s, lastMouseY := mouseY s,
             elements := E, transformWrites := transformWrites s @ W,
             isAnimating := False,
             pendingFrames := removeAll (rafId s) (pendingFrames s)\<rparr>
      else s\<lparr>gridPoints := map (updatePoint (mouseMoved s) (mouseX s) (mouseY s)) (gridPoints s),
             lastMouseX := mouseX s, lastMouseY := mouseY s,
             elements := E, transformWrites := transformWrites s @ W,
             rafId := Suc (lastHandle s), lastHandle := Suc (lastHandle s),
             pendingFrames := pendingFrames s @ [Suc (lastHandle s)]\<rparr>) \<and>
     (W = [] \<longrightarrow> E = elements s) \<and>
     (\<forall>r. r \<notin> element ` set (gridPoints s) \<longrightarrow> E r = elements s r)"
proof -
  obtain E W ch' where
    loop: "fold (animatePoint (mouseMoved s)) (gridPoints s) ([], False, s) =
       ([] @ map (updatePoint (mouseMoved s) (mouseX s) (mouseY s)) (gridPoints s), ch',
        s\<lparr>elements := E, transformWrites := transformWrites s @ W\<rparr>)"
    and ch: "ch' \<longleftrightarrow> False \<or> W \<noteq> []" and E: "W = [] \<longrightarrow> E = elements s"
    and F: "\<forall>r. r \<notin> element ` set (gridPoints s) \<longrightarrow> E r = elements s r"
    using fold_animatePoint [of "mouseMoved s" "gridPoints s" "[]" False s] by blast
  show ?thesis
    apply (rule exI [of _ E])
    apply (rule exI [of _ W])
    using loop ch E F
    by (simp add: animate_def Let_def requestAnimationFrame_def cancelAnimationFrame_def)
qed

lemma animate_fields:
  obtains E W where
    "gridPoints (animate s) =
       map (updatePoint (mouseMoved s) (mouseX s) (mouseY s)) (gridPoints s)"
    "mouseX (animate s) = mouseX s" "mouseY (animate s) = mouseY s"
    "lastMouseX (animate s) = mouseX s" "lastMouseY (animate s) = mouseY s"
    "innerWidth (animate s) = innerWidth s" "innerHeight (animate s) = innerHeight s"
    "children (animate s) = children s" "nextElement (animate s) = nextElement s"
    "elements (animate s) = E" "transformWrites (animate s) = transformWrites s @ W"
    "W = [] \<Longrightarrow> E = elements s"
    "\<And>r. r \<notin> element ` set (gridPoints s) \<Longrightarrow> E r = elements s r"
    "isAnimating (animate s) = (isAnimating s \<and> \<not> (W = [] \<and> \<not> mouseMoved s))"
    "pendingFrames (animate s) =
       (if W = [] \<and> \<not> mouseMoved s then removeAll (rafId s) (pendingFrames s)
        else pendingFrames s @ [Suc (lastHandle s)])"
    "rafId (animate s) = (if W = [] \<and> \<not> mouseMoved s then rafId s else Suc (lastHandle s))"
    "lastHandle (animate s) =
       (if W = [] \<and> \<not> mouseMoved s then lastHandle s else Suc (lastHandle s))"
proof -
  obtain E W where
    a: "animate s =
     (if W = [] \<and> \<not> mouseMoved s
      then s\<lparr>gridPoints := map (updatePoint (mouseMoved s) (mouseX s) (mouseY s)) (gridPoints s),
             lastMouseX := mouseX s, lastMouseY := mouseY s,
             elements := E, transformWrites := transformWrites s @ W,
             isAnimating := False,
             pendingFrames := removeAll (rafId s) (pendingFrames s)\<rparr>
      else s\<lparr>gridPoints := map (updatePoint (mouseMoved s) (mouseX s) (mouseY s)) (gridPoints s),
             lastMouseX := mouseX s, lastMouseY := mouseY s,
             elements := E, transformWrites := transformWrites s @ W,
             rafId := Suc (lastHandle s), lastHandle := Suc (lastHandle s),
             pendingFrames := pendingFrames s @ [Suc (lastHandle s)]\<rparr>)"
    and b: "W = [] \<longrightarrow> E = elements s"
    and c: "\<forall>r. r \<notin> element ` set (gridPoints s) \<longrightarrow> E r = elements s r"
    using animate_cases [of s] by blast
  show ?thesis
  proof (cases "W = [] \<and> \<not> mouseMoved s")
    case True
    with a have "animate s = s\<lparr>gridPoints := map (updatePoint (mouseMoved s) (mouseX s) (mouseY s)) (gridPoints s),
             lastMouseX := mouseX s, lastMouseY := mouseY s,
             elements := E, transformWrites := transformWrites s @ W,
             isAnimating := False,
             pendingFrames := removeAll (rafId s) (pendingFrames s)\<rparr>" by simp
    then show ?thesis using b c True by (intro that [of E W]) simp_all
  next
    case False
    with a have "animate s = s\<lparr>gridPoints := map (updatePoint (mouseMoved s) (mouseX s) (mouseY s)) (gridPoints s),
             lastMouseX := mouseX s, lastMouseY := mouseY s,
             elements := E, transformWrites := transformWrites s @ W,
             rafId := Suc (lastHandle s), lastHandle := Suc (lastHandle s),
             pendingFrames := pendingFrames s @ [Suc (lastHandle s)]\<rparr>" by auto
    then show ?thesis using b c False by (intro that [of E W]) auto
  qed
qed

lemma gridPoints_animate:
  "gridPoints (animate s) =
     map (updatePoint (mouseMoved s) (mouseX s) (mouseY s)) (gridPoints s)"
  by (rule animate_fields [of s])

lemma animate_elements_other:
  "r \<notin> element ` set (gridPoints s) \<Longrightarrow> elements (animate s) r = elements s r"
  using animate_fields [of s] by metis

lemma animate_quiet:
  assumes "\<forall>p\<in>set (gridPoints s). \<not> (needsUpdate (mouseMoved s) p \<and>
       transformChanged (settle (mouseX s) (mouseY s) p) (elements s (element p)))"
  shows "transformWrites (animate s) = transformWrites s \<and> elements (animate s) = elements s"
  using fold_animatePoint_quiet [OF assms, of "[]" False]
  by (simp add: animate_def Let_def requestAnimationFrame_def cancelAnimationFrame_def)

section \<open>One step on one point\<close>

lemma distance_same_row:
  "my = y p + CELL_SIZE / 2 \<Longrightarrow> distance mx my p = \<bar>mx - (x p + CELL_SIZE / 2)\<bar>"
  by (simp add: distance_def Let_def)

lemma target_far:
  "PULL_DISTANCE \<le> distance mx my p \<Longrightarrow> target mx my p = (0, 0)"
  by (simp add: target_def Let_def)

lemma target_at_centre:
  assumes "mx = x p + CELL_SIZE / 2" and "my = y p + CELL_SIZE / 2"
  shows "distance mx my p = 0" and "target mx my p = (PULL_STRENGTH * CELL_SIZE, 0)"
  using assms by (simp_all add: distance_def target_def atan2_def PULL_DISTANCE_def Let_def)

lemma target_to_the_right:
  assumes "my = y p + CELL_SIZE / 2" and "0 < d" and "d < PULL_DISTANCE"
    and "mx = x p + CELL_SIZE / 2 + d"
  shows "distance mx my p = d"
    and "target mx my p = ((1 - d / PULL_DISTANCE) * PULL_STRENGTH * CELL_SIZE, 0)"
proof -
  show d: "distance mx my p = d"
    using assms by (simp add: distance_same_row)
  show "target mx my p = ((1 - d / PULL_DISTANCE) * PULL_STRENGTH * CELL_SIZE, 0)"
    using assms d by (simp add: target_def Let_def atan2_def)
qed

lemma settle_far:
  assumes "PULL_DISTANCE \<le> distance mx my p"
  shows "settle mx my p =
     p\<lparr>offsetX := (if \<bar>offsetX p + (0 - offsetX p) * 0.2\<bar> > EPSILON
                    then (offsetX p + (0 - offsetX p) * 0.2) * 0.9 else 0),
       offsetY := (if \<bar>offsetY p + (0 - offsetY p) * 0.2\<bar> > EPSILON
                    then (offsetY p + (0 - offsetY p) * 0.2) * 0.9 else 0)\<rparr>"
  using assms by (simp add: settle_def target_far Let_def)

lemma settle_near:
  assumes "distance mx my p < PULL_DISTANCE" and "target mx my p = (tx, ty)"
  shows "settle mx my p =
     p\<lparr>offsetX := (if \<bar>offsetX p + (tx - offsetX p) * 0.2\<bar> > EPSILON
                    then offsetX p + (tx - offsetX p) * 0.2 else 0),
       offsetY := (if \<bar>offsetY p + (ty - offsetY p) * 0.2\<bar> > EPSILON
                    then offsetY p + (ty - offsetY p) * 0.2 else 0)\<rparr>"
  using assms by (simp add: settle_def Let_def)

lemma nth_gridPoints_animate:
  "i < length (gridPoints s) \<Longrightarrow>
   gridPoints (animate s) ! i =
     updatePoint (mouseMoved s) (mouseX s) (mouseY s) (gridPoints s ! i)"
  by (simp add: gridPoints_animate)

lemma animate_single:
  assumes "gridPoints s = [p]"
  shows "animate s =
    (let q = updatePoint (mouseMoved s) (mouseX s) (mouseY s) p;
         w = (needsUpdate (mouseMoved s) p \<and> transformChanged q (elements s (element p)));
         s1 = (if w then s\<lparr>elements := (elements s)(element p :=
                            (elements s (element p))\<lparr>styleTransform := Some (offsetX q, offsetY q),
                               datasetOx := Some (offsetX q),
                               datasetOy := Some (offsetY q)\<rparr>),
                          transformWrites := transformWrites s @
                            [(element p, offsetX q, offsetY q)]\<rparr> else s);
         s2 = s1\<lparr>gridPoints := [q], lastMouseX := mouseX s, lastMouseY := mouseY s\<rparr>
     in if \<not> w \<and> \<not> mouseMoved s
        then s2\<lparr>isAnimating := False, pendingFrames := removeAll (rafId s) (pendingFrames s)\<rparr>
        else s2\<lparr>rafId := Suc (lastHandle s), lastHandle := Suc (lastHandle s),
               pendingFrames := pendingFrames s @ [Suc (lastHandle s)]\<rparr>)"
  using assms
  by (simp add: animate_def animatePoint_def updatePoint_def Let_def
      requestAnimationFrame_def cancelAnimationFrame_def)

section \<open>The example runs\<close>

lemma initial_0_0:
  "initial 0 0 =
     \<lparr>mouseX = 0, mouseY = 0, lastMouseX = 0, lastMouseY = 0, isAnimating = False,
      rafId = 0,
      gridPoints = [\<lparr>x = 0, y = 0, offsetX = 0, offsetY = 0, element = 0\<rparr>],
      innerWidth = 0, innerHeight = 0, children = [0],
      elements = (\<lambda>_. blank)
         (0 := \<lparr>textContent = ''+'', stylePosition = ''absolute'', styleLeft = 0,
                styleTop = 0, className = ''grid-point'', styleTransform = None,
                datasetOx = None, datasetOy = None\<rparr>),
      nextElement = 1, pendingFrames = [], lastHandle = 0, transformWrites = []\<rparr>"
  by (simp add: initial_def loaded_def generateGrid_def rowMax_def colMax_def
      createGridPoint_def CELL_SIZE_def)

lemma arrival:
  "(mousemove mx my (initial 0 0))\<lparr>pendingFrames := []\<rparr> =
     (initial 0 0)\<lparr>mouseX := mx, mouseY := my, isAnimating := True, rafId := 1, lastHandle := 1\<rparr>"
  "frame (mousemove mx my (initial 0 0)) =
     animate ((mousemove mx my (initial 0 0))\<lparr>pendingFrames := []\<rparr>)"
  by (simp_all add: mousemove_def startAnimation_def requestAnimationFrame_def frame_def
      initial_0_0)

lemma atCentre_eq:
  "atCentre = (initial 0 0)\<lparr>mouseX := 25, mouseY := 25, isAnimating := True, rafId := 1,
      lastHandle := 1\<rparr>"
  unfolding atCentre_def arrival ..

lemmas constants = CELL_SIZE_def PULL_DISTANCE_def PULL_STRENGTH_def EPSILON_def

lemma marker_simps [simp]:
  "x (marker a) = 0" "y (marker a) = 0" "offsetX (marker a) = a" "offsetY (marker a) = 0"
  "element (marker a) = 0"
  by (simp_all add: marker_def)

lemma marker_at_centre:
  "updatePoint moved 25 25 (marker a) =
     (if moved \<or> \<bar>a\<bar> > 0.01
      then marker (if \<bar>a + (20 - a) * 0.2\<bar> > 0.01 then a + (20 - a) * 0.2 else 0)
      else marker a)"
  by (simp add: updatePoint_def needsUpdate_def settle_def target_def distance_def atan2_def
      marker_def constants Let_def)

lemma marker_to_the_right:
  assumes "0 < d" and "d < 600" and "mx = 25 + d"
  shows "updatePoint moved mx 25 (marker a) =
     (if moved \<or> \<bar>a\<bar> > 0.01
      then marker (if \<bar>a + ((1 - d / 600) * 20 - a) * 0.2\<bar> > 0.01
                   then a + ((1 - d / 600) * 20 - a) * 0.2 else 0)
      else marker a)"
  using assms
  by (simp add: updatePoint_def needsUpdate_def settle_def target_def distance_def atan2_def
      marker_def constants Let_def)

lemma marker_far:
  assumes "625 \<le> mx"
  shows "distance mx 25 (marker a) \<ge> PULL_DISTANCE"
    and "updatePoint moved mx 25 (marker a) =
     (if moved \<or> \<bar>a\<bar> > 0.01
      then marker (if \<bar>a + (0 - a) * 0.2\<bar> > 0.01 then (a + (0 - a) * 0.2) * 0.9 else 0)
      else marker a)"
  using assms
  by (simp_all add: updatePoint_def needsUpdate_def settle_def target_def distance_def
      marker_def constants Let_def)

lemma animate_marker:
  assumes g: "gridPoints s = [marker a]"
    and u: "updatePoint (mouseMoved s) (mouseX s) (mouseY s) (marker a) = marker b"
    and w: "w = (needsUpdate (mouseMoved s) (marker a) \<and>
                 transformChanged (marker b) (elements s 0))"
  shows "gridPoints (animate s) = [marker b]"
    and "mouseX (animate s) = mouseX s" and "mouseY (animate s) = mouseY s"
    and "lastMouseX (animate s) = mouseX s" and "lastMouseY (animate s) = mouseY s"
    and "isAnimating (animate s) = (isAnimating s \<and> (w \<or> mouseMoved s))"
    and "transformWrites (animate s) = transformWrites s @ (if w then [(0, b, 0)] else [])"
    and "datasetOx (elements (animate s) 0) = (if w then Some b else datasetOx (elements s 0))"
    and "datasetOy (elements (animate s) 0) = (if w then Some 0 else datasetOy (elements s 0))"
    and "pendingFrames (animate s) =
           (if w \<or> mouseMoved s then pendingFrames s @ [Suc (lastHandle s)]
            else removeAll (rafId s) (pendingFrames s))"
    and "rafId (animate s) = (if w \<or> mouseMoved s then Suc (lastHandle s) else rafId s)"
    and "lastHandle (animate s) = (if w \<or> mouseMoved s then Suc (lastHandle s) else lastHandle s)"
    and "innerWidth (animate s) = innerWidth s" and "innerHeight (animate s) = innerHeight s"
    and "nextElement (animate s) = nextElement s" and "children (animate s) = children s"
  unfolding animate_single [OF g] u w by (simp_all add: Let_def)

lemma atCentre_fields:
  "gridPoints atCentre = [marker 0]" "mouseX atCentre = 25" "mouseY atCentre = 25"
  "lastMouseX atCentre = 0" "lastMouseY atCentre = 0" "isAnimating atCentre"
  "datasetOx (elements atCentre 0) = None" "datasetOy (elements atCentre 0) = None"
  "transformWrites atCentre = []" "pendingFrames atCentre = []" "rafId atCentre = 1"
  "lastHandle atCentre = 1" "innerWidth atCentre = 0" "innerHeight atCentre = 0"
  "nextElement atCentre = 1" "children atCentre = [0]"
  unfolding atCentre_def arrival by (simp_all add: initial_0_0 marker_def)

lemma atCentre_moved: "mouseMoved atCentre"
  by (simp add: mouseMoved_def atCentre_fields EPSILON_def)

lemma animate_atCentre:
  "gridPoints (animate atCentre) = [marker 4]" "mouseX (animate atCentre) = 25"
  "mouseY (animate atCentre) = 25"
  "lastMouseX (animate atCentre) = 25" "lastMouseY (animate atCentre) = 25"
  "isAnimating (animate atCentre)"
  "datasetOx (elements (animate atCentre) 0) = Some 4"
  "datasetOy (elements (animate atCentre) 0) = Some 0"
  "transformWrites (animate atCentre) = [(0, 4, 0)]"
  "pendingFrames (animate atCentre) = [2]" "rafId (animate atCentre) = 2"
  "lastHandle (animate atCentre) = 2" "innerWidth (animate atCentre) = 0"
  "innerHeight (animate atCentre) = 0"
  "nextElement (animate atCentre) = 1" "children (animate atCentre) = [0]"
proof -
  have u: "updatePoint (mouseMoved atCentre) (mouseX atCentre) (mouseY atCentre) (marker 0) =
      marker 4"
    by (simp add: atCentre_moved atCentre_fields marker_at_centre)
  have w: "True = (needsUpdate (mouseMoved atCentre) (marker 0) \<and>
                 transformChanged (marker 4) (elements atCentre 0))"
    by (simp add: atCentre_moved needsUpdate_def transformChanged_def atCentre_fields
        parseDataset_def EPSILON_def)
  note a = animate_marker [OF atCentre_fields(1) u w]
  show "gridPoints (animate atCentre) = [marker 4]" "mouseX (animate atCentre) = 25"
  "mouseY (animate atCentre) = 25"
  "lastMouseX (animate atCentre) = 25" "lastMouseY (animate atCentre) = 25"
  "isAnimating (animate atCentre)"
  "datasetOx (elements (animate atCentre) 0) = Some 4"
  "datasetOy (elements (animate atCentre) 0) = Some 0"
  "transformWrites (animate atCentre) = [(0, 4, 0)]"
  "pendingFrames (animate atCentre) = [2]" "rafId (animate atCentre) = 2"
  "lastHandle (animate atCentre) = 2" "innerWidth (animate atCentre) = 0"
  "innerHeight (animate atCentre) = 0"
  "nextElement (animate atCentre) = 1" "children (animate atCentre) = [0]"
    by (simp_all add: a atCentre_fields)
qed

lemma pulledOnce_eq: "pulledOnce = (animate atCentre)\<lparr>pendingFrames := []\<rparr>"
  by (simp only: pulledOnce_def atCentre_def arrival(2))

lemma pulledOnce_fields:
  "gridPoints pulledOnce = [marker 4]" "mouseX pulledOnce = 25" "mouseY pulledOnce = 25"
  "lastMouseX pulledOnce = 25" "lastMouseY pulledOnce = 25" "isAnimating pulledOnce"
  "datasetOx (elements pulledOnce 0) = Some 4" "datasetOy (elements pulledOnce 0) = Some 0"
  "transformWrites pulledOnce = [(0, 4, 0)]" "pendingFrames pulledOnce = []"
  "rafId pulledOnce = 2" "lastHandle pulledOnce = 2"
  unfolding pulledOnce_eq by (simp_all add: animate_atCentre)

lemma arrived_fields:
  fixes mx my :: real
  defines "s \<equiv> (mousemove mx my (initial 0 0))\<lparr>pendingFrames := []\<rparr>"
  shows "gridPoints s = [marker 0]" "mouseX s = mx" "mouseY s = my"
  "lastMouseX s = 0" "lastMouseY s = 0" "isAnimating s"
  "datasetOx (elements s 0) = None" "datasetOy (elements s 0) = None"
  "transformWrites s = []" "pendingFrames s = []" "rafId s = 1"
  "lastHandle s = 1"
  unfolding s_def arrival by (simp_all add: initial_0_0 marker_def)

lemma first_frame_right:
  fixes mx :: real
  defines "s \<equiv> animate ((mousemove mx 25 (initial 0 0))\<lparr>pendingFrames := []\<rparr>)"
  assumes "25 < mx" and "mx < 623.5"
  shows "gridPoints s = [marker (4 - (mx - 25) / 150)]" "mouseX s = mx" "mouseY s = 25"
  "lastMouseX s = mx" "lastMouseY s = 25" "isAnimating s"
  "datasetOx (elements s 0) = Some (4 - (mx - 25) / 150)" "datasetOy (elements s 0) = Some 0"
  "transformWrites s = [(0, 4 - (mx - 25) / 150, 0)]" "pendingFrames s = [2]" "rafId s = 2"
  "lastHandle s = 2"
proof -
  define a where "a = (mousemove mx 25 (initial 0 0))\<lparr>pendingFrames := []\<rparr>"
  note f = arrived_fields [of mx 25, folded a_def]
  have m: "mouseMoved a"
    using assms(2) by (simp add: mouseMoved_def f EPSILON_def)
  have "updatePoint True mx 25 (marker 0) = marker (4 - (mx - 25) / 150)"
    using assms(2,3) by (simp add: marker_to_the_right [where d = "mx - 25"] field_simps)
  then have u: "updatePoint (mouseMoved a) (mouseX a) (mouseY a) (marker 0) =
      marker (4 - (mx - 25) / 150)"
    using m by (simp add: f)
  have "transformChanged (marker (4 - (mx - 25) / 150)) (elements a 0)"
    using assms(2,3)
    by (simp add: transformChanged_def f parseDataset_def EPSILON_def field_simps)
  then have w: "True = (needsUpdate (mouseMoved a) (marker 0) \<and>
                 transformChanged (marker (4 - (mx - 25) / 150)) (elements a 0))"
    using m by (simp add: needsUpdate_def)
  note r = animate_marker [OF f(1) u w]
  show "gridPoints s = [marker (4 - (mx - 25) / 150)]" "mouseX s = mx" "mouseY s = 25"
  "lastMouseX s = mx" "lastMouseY s = 25" "isAnimating s"
  "datasetOx (elements s 0) = Some (4 - (mx - 25) / 150)" "datasetOy (elements s 0) = Some 0"
  "transformWrites s = [(0, 4 - (mx - 25) / 150, 0)]" "pendingFrames s = [2]" "rafId s = 2"
  "lastHandle s = 2"
    unfolding s_def a_def [symmetric] by (simp_all add: r f m)
qed

lemma grazed_eq:
  "grazed = (animate ((mousemove 623.2 25 (initial 0 0))\<lparr>pendingFrames := []\<rparr>))\<lparr>pendingFrames := []\<rparr>"
  by (simp only: grazed_def arrival(2))

lemma grazed_fields:
  "gridPoints grazed = [marker 0.012]" "mouseX grazed = 623.2" "mouseY grazed = 25"
  "lastMouseX grazed = 623.2" "lastMouseY grazed = 25" "isAnimating grazed"
  "datasetOx (elements grazed 0) = Some 0.012" "datasetOy (elements grazed 0) = Some 0"
  "transformWrites grazed = [(0, 0.012, 0)]" "pendingFrames grazed = []" "rafId grazed = 2"
  "lastHandle grazed = 2"
proof -
  have h: "(25::real) < 623.2" "(623.2::real) < 623.5" by simp_all
  note f = first_frame_right [OF h]
  show "gridPoints grazed = [marker 0.012]" "mouseX grazed = 623.2" "mouseY grazed = 25"
  "lastMouseX grazed = 623.2" "lastMouseY grazed = 25" "isAnimating grazed"
  "datasetOx (elements grazed 0) = Some 0.012" "datasetOy (elements grazed 0) = Some 0"
  "transformWrites grazed = [(0, 0.012, 0)]" "pendingFrames grazed = []" "rafId grazed = 2"
  "lastHandle grazed = 2"
    unfolding grazed_eq using f by simp_all
qed

lemma moved_on:
  assumes "isAnimating s"
  shows "(mousemove mx my s)\<lparr>pendingFrames := []\<rparr> =
     s\<lparr>mouseX := mx, mouseY := my, pendingFrames := []\<rparr>"
  using assms by (simp add: mousemove_def startAnimation_def)

lemma released_eq:
  "released = (animate ((mousemove 623.05 25 (initial 0 0))\<lparr>pendingFrames := []\<rparr>))
     \<lparr>mouseX := 1000, mouseY := 25, pendingFrames := []\<rparr>"
proof -
  have h: "(25::real) < 623.05" "(623.05::real) < 623.5" by simp_all
  note f = first_frame_right [OF h]
  show ?thesis
    unfolding released_def arrival(2) by (rule moved_on [OF f(6)])
qed

lemma released_fields:
  "gridPoints released = [marker 0.013]" "mouseX released = 1000" "mouseY released = 25"
  "lastMouseX released = 623.05" "lastMouseY released = 25" "isAnimating released"
  "datasetOx (elements released 0) = Some 0.013" "datasetOy (elements released 0) = Some 0"
  "transformWrites released = [(0, 0.013, 0)]" "pendingFrames released = []" "rafId released = 2"
  "lastHandle released = 2"
proof -
  have h: "(25::real) < 623.05" "(623.05::real) < 623.5" by simp_all
  note f = first_frame_right [OF h]
  show "gridPoints released = [marker 0.013]" "mouseX released = 1000" "mouseY released = 25"
  "lastMouseX released = 623.05" "lastMouseY released = 25" "isAnimating released"
  "datasetOx (elements released 0) = Some 0.013" "datasetOy (elements released 0) = Some 0"
  "transformWrites released = [(0, 0.013, 0)]" "pendingFrames released = []" "rafId released = 2"
  "lastHandle released = 2"
    unfolding released_eq using f by simp_all
qed

lemma jitter_fields:
  "gridPoints jitter = [marker 0]" "mouseX jitter = 0.005" "mouseY jitter = 0"
  "lastMouseX jitter = 0" "lastMouseY jitter = 0" "isAnimating jitter"
  "datasetOx (elements jitter 0) = None" "datasetOy (elements jitter 0) = None"
  "transformWrites jitter = []" "pendingFrames jitter = []" "rafId jitter = 1"
  "lastHandle jitter = 1"
  unfolding jitter_def using arrived_fields [of "0.005" 0] by simp_all

lemma animate_grazed:
  "gridPoints (animate grazed) = [marker 0.0216]"
  "transformWrites (animate grazed) = transformWrites grazed"
  "\<not> mouseMoved grazed"
  "isAnimating (animate grazed) = False"
  "pendingFrames (animate grazed) = []"
proof -
  show m: "\<not> mouseMoved grazed"
    by (simp add: mouseMoved_def grazed_fields EPSILON_def)
  have "updatePoint False 623.2 25 (marker 0.012) = marker 0.0216"
    by (simp add: marker_to_the_right [where d = "598.2"])
  then have u: "updatePoint (mouseMoved grazed) (mouseX grazed) (mouseY grazed) (marker 0.012) =
      marker 0.0216"
    using m by (simp add: grazed_fields)
  have w: "False = (needsUpdate (mouseMoved grazed) (marker 0.012) \<and>
                 transformChanged (marker 0.0216) (elements grazed 0))"
    by (simp add: transformChanged_def grazed_fields parseDataset_def EPSILON_def)
  note r = animate_marker [OF grazed_fields(1) u w]
  show "gridPoints (animate grazed) = [marker 0.0216]"
    "transformWrites (animate grazed) = transformWrites grazed"
    "isAnimating (animate grazed) = False"
    "pendingFrames (animate grazed) = []"
    using m by (simp_all add: r grazed_fields)
qed

lemma animate_released:
  "mouseMoved released"
  "gridPoints (animate released) = [marker 0.00936]"
  "mouseX (animate released) = 1000" "mouseY (animate released) = 25"
  "lastMouseX (animate released) = 1000" "lastMouseY (animate released) = 25"
proof -
  show m: "mouseMoved released"
    by (simp add: mouseMoved_def released_fields EPSILON_def)
  have "updatePoint True 1000 25 (marker 0.013) = marker 0.00936"
    by (simp add: marker_far(2))
  then have u: "updatePoint (mouseMoved released) (mouseX released) (mouseY released)
      (marker 0.013) = marker 0.00936"
    using m by (simp add: released_fields)
  note r = animate_marker [OF released_fields(1) u refl]
  show "gridPoints (animate released) = [marker 0.00936]"
  "mouseX (animate released) = 1000" "mouseY (animate released) = 25"
  "lastMouseX (animate released) = 1000" "lastMouseY (animate released) = 25"
    by (simp_all add: r released_fields)
qed

lemma animate_jitter:
  "\<not> mouseMoved jitter"
  "gridPoints (animate jitter) = [marker 0]"
  "transformWrites (animate jitter) = transformWrites jitter"
  "isAnimating (animate jitter) = False"
proof -
  show m: "\<not> mouseMoved jitter"
    by (simp add: mouseMoved_def jitter_fields EPSILON_def)
  have u: "updatePoint (mouseMoved jitter) (mouseX jitter) (mouseY jitter) (marker 0) = marker 0"
    using m by (simp add: updatePoint_def needsUpdate_def EPSILON_def)
  have w: "False = (needsUpdate (mouseMoved jitter) (marker 0) \<and>
                 transformChanged (marker 0) (elements jitter 0))"
    using m by (simp add: needsUpdate_def EPSILON_def)
  note r = animate_marker [OF jitter_fields(1) u w]
  show "gridPoints (animate jitter) = [marker 0]"
    "transformWrites (animate jitter) = transformWrites jitter"
    "isAnimating (animate jitter) = False"
    using m by (simp_all add: r jitter_fields)
qed

lemma animate_pulledOnce:
  "\<not> mouseMoved pulledOnce"
  "gridPoints (animate pulledOnce) = [marker 7.2]"
  "transformWrites (animate pulledOnce) = transformWrites pulledOnce @ [(0, 7.2, 0)]"
proof -
  show m: "\<not> mouseMoved pulledOnce"
    by (simp add: mouseMoved_def pulledOnce_fields EPSILON_def)
  have "updatePoint False 25 25 (marker 4) = marker 7.2"
    by (simp add: marker_at_centre)
  then have u: "updatePoint (mouseMoved pulledOnce) (mouseX pulledOnce) (mouseY pulledOnce)
      (marker 4) = marker 7.2"
    using m by (simp add: pulledOnce_fields)
  have w: "True = (needsUpdate (mouseMoved pulledOnce) (marker 4) \<and>
                 transformChanged (marker 7.2) (elements pulledOnce 0))"
    by (simp add: needsUpdate_def transformChanged_def pulledOnce_fields parseDataset_def
        EPSILON_def)
  note r = animate_marker [OF pulledOnce_fields(1) u w]
  show "gridPoints (animate pulledOnce) = [marker 7.2]"
    "transformWrites (animate pulledOnce) = transformWrites pulledOnce @ [(0, 7.2, 0)]"
    by (simp_all add: r)
qed

section \<open>Steps in a row, with no event in between\<close>

text \<open>
  \<open>(animate ^^ n) s\<close> is the state after \<open>n\<close> calls of \<^verbatim>\<open>animate\<close> from \<open>s\<close> with no event
  handled in between, so that the pointer stays where it is.  The calls are counted whether
  or not the driver would have requested them: the properties of this section are about
  the update that a step applies, not about how long the driver keeps stepping.
\<close>

lemma animate_pointer:
  "mouseX (animate s) = mouseX s" "mouseY (animate s) = mouseY s"
  "lastMouseX (animate s) = mouseX s" "lastMouseY (animate s) = mouseY s"
proof -
  obtain E W where
    "mouseX (animate s) = mouseX s" "mouseY (animate s) = mouseY s"
    "lastMouseX (animate s) = mouseX s" "lastMouseY (animate s) = mouseY s"
    by (rule animate_fields [of s])
  then show "mouseX (animate s) = mouseX s" "mouseY (animate s) = mouseY s"
    "lastMouseX (animate s) = mouseX s" "lastMouseY (animate s) = mouseY s"
    by simp_all
qed

lemma funpow_animate_pointer:
  "mouseX ((animate ^^ n) s) = mouseX s" "mouseY ((animate ^^ n) s) = mouseY s"
  by (induction n) (simp_all add: animate_pointer)

lemma still_after_step: "\<not> mouseMoved ((animate ^^ Suc n) s)"
  by (simp add: mouseMoved_def animate_pointer EPSILON_def)

lemma gridPoints_funpow_animate:
  "gridPoints ((animate ^^ Suc n) s) =
     map ((updatePoint False (mouseX s) (mouseY s) ^^ n) \<circ>
          updatePoint (mouseMoved s) (mouseX s) (mouseY s)) (gridPoints s)"
proof (induction n)
  case 0
  show ?case by (simp add: gridPoints_animate)
next
  case (Suc n)
  let ?t = "(animate ^^ Suc n) s"
  have "\<not> mouseMoved ?t" "mouseX ?t = mouseX s" "mouseY ?t = mouseY s"
    by (rule still_after_step, rule funpow_animate_pointer, rule funpow_animate_pointer)
  then have "gridPoints (animate ?t) =
      map (updatePoint False (mouseX s) (mouseY s)) (gridPoints ?t)"
    using gridPoints_animate [of ?t] by (simp del: funpow.simps)
  also have "\<dots> = map (updatePoint False (mouseX s) (mouseY s))
      (map ((updatePoint False (mouseX s) (mouseY s) ^^ n) \<circ>
          updatePoint (mouseMoved s) (mouseX s) (mouseY s)) (gridPoints s))"
    by (simp only: Suc.IH)
  finally show ?case by simp
qed

section \<open>A point out of the pointer's reach\<close>

lemma distance_updatePoint [simp]:
  "distance mx my (updatePoint moved mx' my' p) = distance mx my p"
  by (simp add: distance_def)

lemma distance_funpow_updatePoint [simp]:
  "distance mx my ((updatePoint moved mx' my' ^^ n) p) = distance mx my p"
  by (induction n) simp_all

lemma settled_fixed: "settled p \<Longrightarrow> updatePoint False mx my p = p"
  by (simp add: updatePoint_def needsUpdate_def settled_def)

lemma settled_funpow_fixed: "settled p \<Longrightarrow> (updatePoint False mx my ^^ n) p = p"
  by (induction n) (simp_all add: settled_fixed)

lemma far_step_shrinks:
  assumes "PULL_DISTANCE \<le> distance mx my p"
  shows "\<bar>offsetX (updatePoint moved mx my p)\<bar> \<le> \<bar>offsetX p\<bar>"
    and "\<bar>offsetY (updatePoint moved mx my p)\<bar> \<le> \<bar>offsetY p\<bar>"
    and "needsUpdate moved p \<Longrightarrow>
           \<bar>offsetX (updatePoint moved mx my p)\<bar> \<le> 0.72 * \<bar>offsetX p\<bar> \<and>
           \<bar>offsetY (updatePoint moved mx my p)\<bar> \<le> 0.72 * \<bar>offsetY p\<bar>"
  by (simp_all add: updatePoint_def settle_far [OF assms] abs_mult)

lemma far_funpow_bound:
  assumes "PULL_DISTANCE \<le> distance mx my p"
  shows "settled ((updatePoint False mx my ^^ n) p) \<or>
         (\<bar>offsetX ((updatePoint False mx my ^^ n) p)\<bar> \<le> 0.72 ^ n * \<bar>offsetX p\<bar> \<and>
          \<bar>offsetY ((updatePoint False mx my ^^ n) p)\<bar> \<le> 0.72 ^ n * \<bar>offsetY p\<bar>)"
proof (induction n)
  case 0
  show ?case by simp
next
  case (Suc n)
  let ?q = "(updatePoint False mx my ^^ n) p"
  show ?case
  proof (cases "settled ?q")
    case True
    then show ?thesis by (simp add: settled_fixed)
  next
    case False
    then have n: "needsUpdate False ?q"
      by (auto simp add: needsUpdate_def settled_def)
    have d: "PULL_DISTANCE \<le> distance mx my ?q"
      using assms by simp
    from far_step_shrinks(3) [OF d n]
    have "\<bar>offsetX (updatePoint False mx my ?q)\<bar> \<le> 0.72 * \<bar>offsetX ?q\<bar>"
      and "\<bar>offsetY (updatePoint False mx my ?q)\<bar> \<le> 0.72 * \<bar>offsetY ?q\<bar>"
      by simp_all
    moreover from Suc False
    have "\<bar>offsetX ?q\<bar> \<le> 0.72 ^ n * \<bar>offsetX p\<bar>" and "\<bar>offsetY ?q\<bar> \<le> 0.72 ^ n * \<bar>offsetY p\<bar>"
      by simp_all
    ultimately show ?thesis by simp
  qed
qed

lemma far_point_settles:
  assumes "PULL_DISTANCE \<le> distance mx my p"
  shows "\<exists>n. settled ((updatePoint False mx my ^^ n) p)"
proof -
  define b where "b = max \<bar>offsetX p\<bar> \<bar>offsetY p\<bar> + 1"
  have b: "0 < b" "\<bar>offsetX p\<bar> \<le> b" "\<bar>offsetY p\<bar> \<le> b"
    by (simp_all add: b_def)
  then have "0 < EPSILON / b"
    by (simp add: EPSILON_def)
  then obtain n where n: "(0.72::real) ^ n < EPSILON / b"
    using real_arch_pow_inv [of "EPSILON / b" "0.72"] by auto
  then have e: "0.72 ^ n * b < EPSILON"
    using b(1) by (simp add: field_simps)
  have x: "0.72 ^ n * \<bar>offsetX p\<bar> \<le> 0.72 ^ n * b"
    by (rule mult_left_mono) (use b in simp_all)
  have y: "0.72 ^ n * \<bar>offsetY p\<bar> \<le> 0.72 ^ n * b"
    by (rule mult_left_mono) (use b in simp_all)
  let ?q = "(updatePoint False mx my ^^ n) p"
  from far_funpow_bound [OF assms, of n] have "settled ?q"
  proof
    assume "settled ?q"
    then show ?thesis .
  next
    assume a: "\<bar>offsetX ?q\<bar> \<le> 0.72 ^ n * \<bar>offsetX p\<bar> \<and> \<bar>offsetY ?q\<bar> \<le> 0.72 ^ n * \<bar>offsetY p\<bar>"
    have "\<bar>offsetX ?q\<bar> \<le> EPSILON" using a x e by linarith
    moreover have "\<bar>offsetY ?q\<bar> \<le> EPSILON" using a y e by linarith
    ultimately show ?thesis by (simp add: settled_def)
  qed
  then show ?thesis ..
qed

lemma far_point_comes_to_rest:
  assumes "i < length (gridPoints s)"
    and "PULL_DISTANCE \<le> distance (mouseX s) (mouseY s) (gridPoints s ! i)"
  shows "\<exists>n. \<forall>m\<ge>n. settled (gridPoints ((animate ^^ m) s) ! i) \<and>
           gridPoints ((animate ^^ m) s) ! i = gridPoints ((animate ^^ n) s) ! i"
proof -
  let ?F = "updatePoint False (mouseX s) (mouseY s)"
  let ?q = "updatePoint (mouseMoved s) (mouseX s) (mouseY s) (gridPoints s ! i)"
  have "PULL_DISTANCE \<le> distance (mouseX s) (mouseY s) ?q"
    using assms(2) by simp
  then obtain k where k: "settled ((?F ^^ k) ?q)"
    using far_point_settles by blast
  have at: "gridPoints ((animate ^^ Suc j) s) ! i = (?F ^^ j) ?q" for j
    using assms(1) by (simp add: gridPoints_funpow_animate del: funpow.simps)
  have "settled (gridPoints ((animate ^^ m) s) ! i) \<and>
      gridPoints ((animate ^^ m) s) ! i = gridPoints ((animate ^^ Suc k) s) ! i"
    if "Suc k \<le> m" for m
  proof -
    from that obtain j where m: "m = Suc (j + k)"
      by (metis Suc_le_D add.commute le_iff_add add_Suc_right)
    have "(?F ^^ (j + k)) ?q = (?F ^^ k) ?q"
      using settled_funpow_fixed [OF k, where n = j and mx = "mouseX s" and my = "mouseY s"]
      by (simp add: funpow_add)
    then show ?thesis
      using k by (simp add: m at del: funpow.simps)
  qed
  then show ?thesis by blast
qed

lemma released_residue:
  "gridPoints ((animate ^^ Suc n) released) = [marker 0.00936]"
proof -
  have u: "updatePoint (mouseMoved released) (mouseX released) (mouseY released) (marker 0.013) =
      marker 0.00936"
    using gridPoints_animate [of released]
    by (simp add: animate_released(2) released_fields)
  have "settled (marker 0.00936)"
    by (simp add: settled_def EPSILON_def)
  then have "(updatePoint False (mouseX released) (mouseY released) ^^ n) (marker 0.00936) =
      marker 0.00936"
    by (rule settled_funpow_fixed)
  with u show ?thesis
    by (simp add: gridPoints_funpow_animate released_fields(1) del: funpow.simps)
qed

section \<open>The grid that \<^verbatim>\<open>generateGrid\<close> builds\<close>

lemma length_gridRow [simp]: "length (gridRow row cols r) = cols"
  by (simp add: gridRow_def)

lemma length_grid [simp]: "length (grid rows cols r) = rows * cols"
  by (induction rows) (simp_all add: grid_def)

lemma elements_of_gridRow: "map element (gridRow row cols r) = [r..<r + cols]"
proof -
  have "map element (gridRow row cols r) = map (\<lambda>col. col + r) [0..<cols]"
    by (simp add: gridRow_def add.commute)
  then show ?thesis
    by (simp add: map_add_upt add.commute)
qed

lemma grid_Suc:
  "grid (Suc rows) cols r = grid rows cols r @ gridRow rows cols (r + rows * cols)"
  by (simp add: grid_def)

lemma elements_of_grid: "map element (grid rows cols r) = [r..<r + rows * cols]"
proof (induction rows)
  case 0
  show ?case by (simp add: grid_def)
next
  case (Suc rows)
  have "[r..<r + rows * cols] @ [r + rows * cols..<r + rows * cols + cols] =
      [r..<r + rows * cols + cols]"
    by (metis le_add1 upt_add_eq_append)
  then show ?case
    by (simp add: grid_Suc Suc.IH elements_of_gridRow add.commute add.left_commute)
qed

lemma fold_createGridPoint:
  "\<exists>E. fold (createGridPoint row) [0..<n] s =
     s\<lparr>nextElement := nextElement s + n, elements := E,
       children := children s @ [nextElement s..<nextElement s + n],
       gridPoints := gridPoints s @ gridRow row n (nextElement s)\<rparr> \<and>
     (\<forall>r<nextElement s. E r = elements s r)"
proof (induction n)
  case 0
  show ?case
    by (rule exI [of _ "elements s"]) (simp add: gridRow_def)
next
  case (Suc n)
  then obtain E where
    e: "fold (createGridPoint row) [0..<n] s =
     s\<lparr>nextElement := nextElement s + n, elements := E,
       children := children s @ [nextElement s..<nextElement s + n],
       gridPoints := gridPoints s @ gridRow row n (nextElement s)\<rparr>"
      (is "_ = ?t")
    and f: "\<forall>r<nextElement s. E r = elements s r"
    by blast
  let ?el = "\<lparr>textContent = ''+'', stylePosition = ''absolute'',
     styleLeft = real n * CELL_SIZE, styleTop = real row * CELL_SIZE,
     className = ''grid-point'', styleTransform = None, datasetOx = None, datasetOy = None\<rparr>"
  have "fold (createGridPoint row) [0..<Suc n] s =
      createGridPoint row n (fold (createGridPoint row) [0..<n] s)"
    by simp
  also have "\<dots> = createGridPoint row n ?t"
    by (simp only: e)
  also have "\<dots> = s\<lparr>nextElement := nextElement s + Suc n,
       elements := E(nextElement s + n := ?el),
       children := children s @ [nextElement s..<nextElement s + Suc n],
       gridPoints := gridPoints s @ gridRow row (Suc n) (nextElement s)\<rparr>"
    by (simp add: createGridPoint_def gridRow_def Let_def)
  finally have "fold (createGridPoint row) [0..<Suc n] s =
      s\<lparr>nextElement := nextElement s + Suc n,
       elements := E(nextElement s + n := ?el),
       children := children s @ [nextElement s..<nextElement s + Suc n],
       gridPoints := gridPoints s @ gridRow row (Suc n) (nextElement s)\<rparr>" .
  moreover have "\<forall>r<nextElement s. (E(nextElement s + n := ?el)) r = elements s r"
    using f by simp
  ultimately show ?case by blast
qed

lemma fold_rows:
  "\<exists>E. fold (\<lambda>row. fold (createGridPoint row) [0..<c]) [0..<n] s =
     s\<lparr>nextElement := nextElement s + n * c, elements := E,
       children := children s @ [nextElement s..<nextElement s + n * c],
       gridPoints := gridPoints s @ grid n c (nextElement s)\<rparr> \<and>
     (\<forall>r<nextElement s. E r = elements s r)"
proof (induction n)
  case 0
  show ?case
    by (rule exI [of _ "elements s"]) (simp add: grid_def)
next
  case (Suc n)
  then obtain E where
    e: "fold (\<lambda>row. fold (createGridPoint row) [0..<c]) [0..<n] s =
     s\<lparr>nextElement := nextElement s + n * c, elements := E,
       children := children s @ [nextElement s..<nextElement s + n * c],
       gridPoints := gridPoints s @ grid n c (nextElement s)\<rparr>"
      (is "_ = ?t")
    and f: "\<forall>r<nextElement s. E r = elements s r"
    by blast
  obtain E' where
    e': "fold (createGridPoint n) [0..<c] ?t =
     ?t\<lparr>nextElement := nextElement ?t + c, elements := E',
       children := children ?t @ [nextElement ?t..<nextElement ?t + c],
       gridPoints := gridPoints ?t @ gridRow n c (nextElement ?t)\<rparr>"
    and f': "\<forall>r<nextElement ?t. E' r = elements ?t r"
    using fold_createGridPoint [of n c ?t] by blast
  have u: "[nextElement s..<nextElement s + n * c] @
      [nextElement s + n * c..<nextElement s + n * c + c] =
      [nextElement s..<nextElement s + n * c + c]"
    by (metis le_add1 upt_add_eq_append)
  have "fold (\<lambda>row. fold (createGridPoint row) [0..<c]) [0..<Suc n] s =
      fold (createGridPoint n) [0..<c]
        (fold (\<lambda>row. fold (createGridPoint row) [0..<c]) [0..<n] s)"
    by simp
  also have "\<dots> = fold (createGridPoint n) [0..<c] ?t"
    by (simp only: e)
  also have "\<dots> = s\<lparr>nextElement := nextElement s + Suc n * c, elements := E',
       children := children s @ [nextElement s..<nextElement s + Suc n * c],
       gridPoints := gridPoints s @ grid (Suc n) c (nextElement s)\<rparr>"
    using u by (simp add: e' grid_Suc add.commute add.left_commute)
  finally have "fold (\<lambda>row. fold (createGridPoint row) [0..<c]) [0..<Suc n] s =
      s\<lparr>nextElement := nextElement s + Suc n * c, elements := E',
       children := children s @ [nextElement s..<nextElement s + Suc n * c],
       gridPoints := gridPoints s @ grid (Suc n) c (nextElement s)\<rparr>" .
  moreover have "\<forall>r<nextElement s. E' r = elements s r"
    using f f' by simp
  ultimately show ?case by blast
qed

lemma generateGrid_fields:
  obtains E where
    "gridPoints (generateGrid s) =
       gridPoints s @ grid (nat (rowMax s)) (nat (colMax s)) (nextElement s)"
    "children (generateGrid s) =
       children s @ [nextElement s..<nextElement s + nat (rowMax s) * nat (colMax s)]"
    "nextElement (generateGrid s) = nextElement s + nat (rowMax s) * nat (colMax s)"
    "elements (generateGrid s) = E" "\<forall>r<nextElement s. E r = elements s r"
    "mouseX (generateGrid s) = mouseX s" "mouseY (generateGrid s) = mouseY s"
    "lastMouseX (generateGrid s) = lastMouseX s" "lastMouseY (generateGrid s) = lastMouseY s"
    "isAnimating (generateGrid s) = isAnimating s" "rafId (generateGrid s) = rafId s"
    "pendingFrames (generateGrid s) = pendingFrames s"
    "lastHandle (generateGrid s) = lastHandle s"
    "transformWrites (generateGrid s) = transformWrites s"
    "innerWidth (generateGrid s) = innerWidth s" "innerHeight (generateGrid s) = innerHeight s"
proof -
  obtain E where
    e: "generateGrid s =
     s\<lparr>nextElement := nextElement s + nat (rowMax s) * nat (colMax s), elements := E,
       children := children s @
         [nextElement s..<nextElement s + nat (rowMax s) * nat (colMax s)],
       gridPoints := gridPoints s @ grid (nat (rowMax s)) (nat (colMax s)) (nextElement s)\<rparr>"
    and f: "\<forall>r<nextElement s. E r = elements s r"
    unfolding generateGrid_def using fold_rows [of "nat (colMax s)" "nat (rowMax s)" s] by blast
  show ?thesis
    using f by (intro that [of E]) (simp_all add: e)
qed

section \<open>Resizing\<close>

lemma resize_eq: "resize s = generateGrid (s\<lparr>children := [], gridPoints := []\<rparr>)"
  by (simp add: resize_def startAnimation_def Let_def)

lemma resizeEvent_eq:
  "resizeEvent w h s =
     generateGrid (s\<lparr>innerWidth := w, innerHeight := h, children := [], gridPoints := []\<rparr>)"
  by (simp add: resizeEvent_def resize_eq)

lemma resizeEvent_fields:
  obtains E where
    "gridPoints (resizeEvent w h s) =
       grid (nat (\<lceil>h / CELL_SIZE\<rceil> + 1)) (nat (\<lceil>w / CELL_SIZE\<rceil> + 1)) (nextElement s)"
    "children (resizeEvent w h s) =
       [nextElement s..<nextElement s +
          nat (\<lceil>h / CELL_SIZE\<rceil> + 1) * nat (\<lceil>w / CELL_SIZE\<rceil> + 1)]"
    "nextElement (resizeEvent w h s) =
       nextElement s + nat (\<lceil>h / CELL_SIZE\<rceil> + 1) * nat (\<lceil>w / CELL_SIZE\<rceil> + 1)"
    "elements (resizeEvent w h s) = E" "\<forall>r<nextElement s. E r = elements s r"
    "mouseX (resizeEvent w h s) = mouseX s" "mouseY (resizeEvent w h s) = mouseY s"
    "lastMouseX (resizeEvent w h s) = lastMouseX s"
    "lastMouseY (resizeEvent w h s) = lastMouseY s"
    "isAnimating (resizeEvent w h s) = isAnimating s" "rafId (resizeEvent w h s) = rafId s"
    "pendingFrames (resizeEvent w h s) = pendingFrames s"
    "lastHandle (resizeEvent w h s) = lastHandle s"
    "transformWrites (resizeEvent w h s) = transformWrites s"
proof -
  let ?t = "s\<lparr>innerWidth := w, innerHeight := h, children := [], gridPoints := []\<rparr>"
  obtain E where
    "gridPoints (generateGrid ?t) =
       gridPoints ?t @ grid (nat (rowMax ?t)) (nat (colMax ?t)) (nextElement ?t)"
    "children (generateGrid ?t) =
       children ?t @ [nextElement ?t..<nextElement ?t + nat (rowMax ?t) * nat (colMax ?t)]"
    "nextElement (generateGrid ?t) = nextElement ?t + nat (rowMax ?t) * nat (colMax ?t)"
    "elements (generateGrid ?t) = E" "\<forall>r<nextElement ?t. E r = elements ?t r"
    "mouseX (generateGrid ?t) = mouseX ?t" "mouseY (generateGrid ?t) = mouseY ?t"
    "lastMouseX (generateGrid ?t) = lastMouseX ?t" "lastMouseY (generateGrid ?t) = lastMouseY ?t"
    "isAnimating (generateGrid ?t) = isAnimating ?t" "rafId (generateGrid ?t) = rafId ?t"
    "pendingFrames (generateGrid ?t) = pendingFrames ?t"
    "lastHandle (generateGrid ?t) = lastHandle ?t"
    "transformWrites (generateGrid ?t) = transformWrites ?t"
    by (rule generateGrid_fields [of ?t])
  then show ?thesis
    by (intro that [of E]) (simp_all add: resizeEvent_eq rowMax_def colMax_def)
qed

lemma elements_funpow_animate:
  "map element (gridPoints ((animate ^^ n) t)) = map element (gridPoints t)"
proof (induction n)
  case 0
  show ?case by simp
next
  case (Suc n)
  have "map element (gridPoints (animate ((animate ^^ n) t))) =
      map element (gridPoints ((animate ^^ n) t))"
    by (simp add: gridPoints_animate comp_def)
  then show ?case by (simp add: Suc.IH)
qed

lemma other_elements_funpow_animate:
  assumes "r \<notin> element ` set (gridPoints t)"
  shows "elements ((animate ^^ n) t) r = elements t r"
proof (induction n)
  case 0
  show ?case by simp
next
  case (Suc n)
  have "set (map element (gridPoints ((animate ^^ n) t))) = set (map element (gridPoints t))"
    by (simp only: elements_funpow_animate)
  then have "r \<notin> element ` set (gridPoints ((animate ^^ n) t))"
    using assms by simp
  then have "elements (animate ((animate ^^ n) t)) r = elements ((animate ^^ n) t) r"
    by (rule animate_elements_other)
  then show ?case by (simp add: Suc.IH)
qed

lemma nth_grid:
  "row < rows \<Longrightarrow> col < cols \<Longrightarrow>
   grid rows cols r ! (row * cols + col) =
     \<lparr>x = real col * CELL_SIZE, y = real row * CELL_SIZE, offsetX = 0, offsetY = 0,
      element = r + (row * cols + col)\<rparr>"
proof (induction rows)
  case 0
  then show ?case by simp
next
  case (Suc rows)
  show ?case
  proof (cases "row < rows")
    case True
    then have "Suc row \<le> rows" by simp
    then have "Suc row * cols \<le> rows * cols" by (rule mult_le_mono1)
    with Suc.prems(2) have "row * cols + col < rows * cols" by simp
    then show ?thesis
      using Suc.IH [OF True Suc.prems(2)] by (simp add: grid_Suc nth_append)
  next
    case False
    with Suc.prems(1) have "row = rows" by simp
    then show ?thesis
      using Suc.prems(2) by (simp add: grid_Suc nth_append gridRow_def add.assoc)
  qed
qed

lemma afterResize_eq:
  "afterResize = (resizeEvent 0 0 (animate atCentre))\<lparr>pendingFrames := []\<rparr>"
  by (simp only: afterResize_def atCentre_def arrival(2))

lemma grid_1_1: "grid (Suc 0) (Suc 0) r = [\<lparr>x = 0, y = 0, offsetX = 0, offsetY = 0, element = r\<rparr>]"
  by (simp add: grid_def gridRow_def)

lemma afterResize_fields:
  "gridPoints afterResize = [\<lparr>x = 0, y = 0, offsetX = 0, offsetY = 0, element = 1\<rparr>]"
  "mouseX afterResize = 25" "mouseY afterResize = 25"
  "lastMouseX afterResize = 25" "lastMouseY afterResize = 25" "isAnimating afterResize"
  "children afterResize = [1]" "pendingFrames afterResize = []"
proof -
  obtain E where
    "gridPoints (resizeEvent 0 0 (animate atCentre)) =
       grid (nat (\<lceil>0 / CELL_SIZE\<rceil> + 1)) (nat (\<lceil>0 / CELL_SIZE\<rceil> + 1))
         (nextElement (animate atCentre))"
    "children (resizeEvent 0 0 (animate atCentre)) =
       [nextElement (animate atCentre)..<nextElement (animate atCentre) +
          nat (\<lceil>0 / CELL_SIZE\<rceil> + 1) * nat (\<lceil>0 / CELL_SIZE\<rceil> + 1)]"
    "mouseX (resizeEvent 0 0 (animate atCentre)) = mouseX (animate atCentre)"
    "mouseY (resizeEvent 0 0 (animate atCentre)) = mouseY (animate atCentre)"
    "lastMouseX (resizeEvent 0 0 (animate atCentre)) = lastMouseX (animate atCentre)"
    "lastMouseY (resizeEvent 0 0 (animate atCentre)) = lastMouseY (animate atCentre)"
    "isAnimating (resizeEvent 0 0 (animate atCentre)) = isAnimating (animate atCentre)"
    by (rule resizeEvent_fields [of 0 0 "animate atCentre"])
  then show
    "gridPoints afterResize = [\<lparr>x = 0, y = 0, offsetX = 0, offsetY = 0, element = 1\<rparr>]"
    "mouseX afterResize = 25" "mouseY afterResize = 25"
    "lastMouseX afterResize = 25" "lastMouseY afterResize = 25" "isAnimating afterResize"
    "children afterResize = [1]" "pendingFrames afterResize = []"
    unfolding afterResize_eq by (simp_all add: animate_atCentre grid_1_1)
qed

lemma afterResize_stays:
  "\<not> mouseMoved afterResize"
  "gridPoints ((animate ^^ n) afterResize) = gridPoints afterResize"
proof -
  show m: "\<not> mouseMoved afterResize"
    by (simp add: mouseMoved_def afterResize_fields EPSILON_def)
  let ?p = "\<lparr>x = 0, y = 0, offsetX = 0, offsetY = 0, element = 1\<rparr>"
  have s: "settled ?p"
    by (simp add: settled_def EPSILON_def)
  show "gridPoints ((animate ^^ n) afterResize) = gridPoints afterResize"
  proof (cases n)
    case 0
    then show ?thesis by simp
  next
    case (Suc k)
    have "(updatePoint False (mouseX afterResize) (mouseY afterResize) ^^ k)
        (updatePoint False (mouseX afterResize) (mouseY afterResize) ?p) = ?p"
      using s by (simp only: settled_fixed settled_funpow_fixed)
    then show ?thesis
      using m by (simp add: Suc gridPoints_funpow_animate afterResize_fields(1)
          del: funpow.simps)
  qed
qed

section \<open>A point with the pointer at its centre\<close>

lemma funpow_updatePoint_fixed [simp]:
  "x ((updatePoint moved mx my ^^ n) p) = x p" "y ((updatePoint moved mx my ^^ n) p) = y p"
  by (induction n) simp_all

lemma centre_step:
  assumes "mx = x p + CELL_SIZE / 2" and "my = y p + CELL_SIZE / 2"
    and "offsetY p = 0" and "0 \<le> offsetX p" and "needsUpdate moved p"
  shows "offsetX (updatePoint moved mx my p) = 0.8 * offsetX p + 4"
    and "offsetY (updatePoint moved mx my p) = 0"
proof -
  have d: "distance mx my p < PULL_DISTANCE"
    and t: "target mx my p = (PULL_STRENGTH * CELL_SIZE, 0)"
    using target_at_centre [OF assms(1,2)] by (simp_all add: PULL_DISTANCE_def)
  define ex where "ex = offsetX p + (PULL_STRENGTH * CELL_SIZE - offsetX p) * 0.2"
  define ey where "ey = offsetY p + (0 - offsetY p) * 0.2"
  have s: "settle mx my p =
      p\<lparr>offsetX := (if \<bar>ex\<bar> > EPSILON then ex else 0),
        offsetY := (if \<bar>ey\<bar> > EPSILON then ey else 0)\<rparr>"
    unfolding ex_def ey_def by (rule settle_near [OF d t])
  have ex: "ex = 0.8 * offsetX p + 4"
    by (simp add: ex_def constants algebra_simps)
  then have "EPSILON < \<bar>ex\<bar>"
    using assms(4) by (simp add: EPSILON_def)
  moreover have "ey = 0"
    using assms(3) by (simp add: ey_def)
  ultimately show "offsetX (updatePoint moved mx my p) = 0.8 * offsetX p + 4"
    and "offsetY (updatePoint moved mx my p) = 0"
    using assms(5) ex by (simp_all add: updatePoint_def s)
qed

lemma centre_funpow:
  assumes "mx = x p + CELL_SIZE / 2" and "my = y p + CELL_SIZE / 2"
    and "offsetY p = 0" and "4 \<le> offsetX p" and "offsetX p < 20"
  shows "offsetX ((updatePoint False mx my ^^ n) p) = 20 - (20 - offsetX p) * 0.8 ^ n \<and>
         offsetY ((updatePoint False mx my ^^ n) p) = 0"
proof (induction n)
  case 0
  show ?case using assms(3) by simp
next
  case (Suc n)
  let ?q = "(updatePoint False mx my ^^ n) p"
  have "(0.8::real) ^ n \<le> 1"
    by (rule power_le_one) simp_all
  then have "(20 - offsetX p) * 0.8 ^ n \<le> (20 - offsetX p) * 1"
    using assms(5) by (intro mult_left_mono) simp_all
  then have q: "4 \<le> offsetX ?q"
    using Suc assms(4) by simp
  then have n: "needsUpdate False ?q"
    by (simp add: needsUpdate_def EPSILON_def)
  have c: "mx = x ?q + CELL_SIZE / 2" "my = y ?q + CELL_SIZE / 2"
    using assms(1,2) by simp_all
  have y: "offsetY ?q = 0"
    using Suc by simp
  from q have "0 \<le> offsetX ?q" by simp
  from centre_step [OF c y this n]
  have "offsetX (updatePoint False mx my ?q) = 0.8 * offsetX ?q + 4"
    and y': "offsetY (updatePoint False mx my ?q) = 0"
    by simp_all
  then have "offsetX (updatePoint False mx my ?q) =
      0.8 * (20 - (20 - offsetX p) * 0.8 ^ n) + 4"
    using Suc by simp
  also have "\<dots> = 20 - (20 - offsetX p) * 0.8 ^ Suc n"
    by (simp add: field_simps)
  finally show ?case
    using y' by simp
qed

lemma pulled_displacement:
  assumes "i < length (gridPoints s)"
    and "mouseX s = x (gridPoints s ! i) + CELL_SIZE / 2"
    and "mouseY s = y (gridPoints s ! i) + CELL_SIZE / 2"
    and "offsetY (gridPoints s ! i) = 0"
    and "0 \<le> offsetX (gridPoints s ! i)" and "offsetX (gridPoints s ! i) < 20"
    and "needsUpdate (mouseMoved s) (gridPoints s ! i)"
  shows "offsetX (gridPoints ((animate ^^ n) s) ! i) =
           20 - (20 - offsetX (gridPoints s ! i)) * 0.8 ^ n \<and>
         offsetY (gridPoints ((animate ^^ n) s) ! i) = 0"
proof (cases n)
  case 0
  then show ?thesis using assms(4) by simp
next
  case (Suc k)
  let ?p = "gridPoints s ! i"
  let ?q = "updatePoint (mouseMoved s) (mouseX s) (mouseY s) ?p"
  have q: "offsetX ?q = 0.8 * offsetX ?p + 4" "offsetY ?q = 0"
    using centre_step [OF assms(2,3,4,5,7)] by simp_all
  have c: "mouseX s = x ?q + CELL_SIZE / 2" "mouseY s = y ?q + CELL_SIZE / 2"
    using assms(2,3) by simp_all
  have "4 \<le> offsetX ?q" "offsetX ?q < 20"
    using q assms(5,6) by simp_all
  from centre_funpow [OF c q(2) this, of k]
  have "offsetX ((updatePoint False (mouseX s) (mouseY s) ^^ k) ?q) =
      20 - (20 - offsetX ?q) * 0.8 ^ k"
    and y: "offsetY ((updatePoint False (mouseX s) (mouseY s) ^^ k) ?q) = 0"
    by simp_all
  then have "offsetX ((updatePoint False (mouseX s) (mouseY s) ^^ k) ?q) =
      20 - (20 - (0.8 * offsetX ?p + 4)) * 0.8 ^ k"
    by (simp only: q(1))
  also have "\<dots> = 20 - (20 - offsetX ?p) * 0.8 ^ Suc k"
    by (simp add: field_simps)
  finally have "offsetX ((updatePoint False (mouseX s) (mouseY s) ^^ k) ?q) =
      20 - (20 - offsetX ?p) * 0.8 ^ Suc k" .
  moreover have "gridPoints ((animate ^^ Suc k) s) ! i =
      (updatePoint False (mouseX s) (mouseY s) ^^ k) ?q"
    using assms(1) by (simp add: gridPoints_funpow_animate del: funpow.simps)
  ultimately show ?thesis
    using y by (simp only: Suc)
qed

section \<open>The frames the driver takes with the pointer at the centre\<close>

lemma frame_one:
  "pendingFrames s = [h] \<Longrightarrow> frame s = animate (s\<lparr>pendingFrames := []\<rparr>)"
  by (simp add: frame_def)

lemma pull_increments:
  "n < 27 \<Longrightarrow> 0.01 < 4 * (0.8::real) ^ n" "4 * (0.8::real) ^ 27 \<le> 0.01"
  "(19.96::real) < 20 - 20 * 0.8 ^ 28"
proof -
  show "4 * (0.8::real) ^ 27 \<le> 0.01" by (simp add: power_divide)
  show "(19.96::real) < 20 - 20 * 0.8 ^ 28" by (simp add: power_divide)
  assume "n < 27"
  then have "(0.8::real) ^ 26 \<le> 0.8 ^ n"
    by (intro power_decreasing) simp_all
  moreover have "0.01 < 4 * (0.8::real) ^ 26" by (simp add: power_divide)
  ultimately show "0.01 < 4 * (0.8::real) ^ n" by linarith
qed

lemma pulledTo_first: "pulledTo (frame (mousemove 25 25 (initial 0 0))) 4 2"
  unfolding arrival(2) atCentre_def [symmetric]
  by (simp add: pulledTo_def animate_atCentre)

lemma pulledTo_frame:
  assumes t: "pulledTo t a k" and a: "4 \<le> a" "a < 20"
  shows "0.01 < (20 - a) * 0.2 \<Longrightarrow> pulledTo (frame t) (a + (20 - a) * 0.2) (Suc k)"
    and "(20 - a) * 0.2 \<le> 0.01 \<Longrightarrow>
           gridPoints (frame t) = [marker (a + (20 - a) * 0.2)] \<and>
           \<not> isAnimating (frame t) \<and> pendingFrames (frame t) = [] \<and>
           transformWrites (frame t) = transformWrites t"
proof -
  define u where "u = t\<lparr>pendingFrames := []\<rparr>"
  have f: "frame t = animate u"
    using t unfolding u_def pulledTo_def by (intro frame_one [of t k]) simp
  have g: "gridPoints u = [marker a]"
    and p: "mouseX u = 25" "mouseY u = 25" "lastMouseX u = 25" "lastMouseY u = 25"
      "isAnimating u" "datasetOx (elements u 0) = Some a" "datasetOy (elements u 0) = Some 0"
      "pendingFrames u = []" "rafId u = k" "lastHandle u = k" "transformWrites u = transformWrites t"
    using t by (simp_all add: u_def pulledTo_def)
  have m: "\<not> mouseMoved u"
    by (simp add: mouseMoved_def p EPSILON_def)
  have "4 \<le> a + (20 - a) * 0.2"
    using a by (simp add: field_simps)
  then have q: "\<bar>a\<bar> > 0.01" "\<bar>a + (20 - a) * 0.2\<bar> > 0.01"
    using a by (simp_all add: field_simps)
  have "updatePoint False 25 25 (marker a) =
     (if False \<or> \<bar>a\<bar> > 0.01
      then marker (if \<bar>a + (20 - a) * 0.2\<bar> > 0.01 then a + (20 - a) * 0.2 else 0)
      else marker a)"
    by (rule marker_at_centre)
  then have "updatePoint False 25 25 (marker a) = marker (a + (20 - a) * 0.2)"
    by (simp only: q if_True simp_thms)
  then have up: "updatePoint (mouseMoved u) (mouseX u) (mouseY u) (marker a) =
      marker (a + (20 - a) * 0.2)"
    using m by (simp add: p)
  have n: "needsUpdate (mouseMoved u) (marker a)"
    using a by (simp add: needsUpdate_def EPSILON_def)
  have c: "transformChanged (marker (a + (20 - a) * 0.2)) (elements u 0) \<longleftrightarrow>
      0.01 < (20 - a) * 0.2"
    using a by (simp add: transformChanged_def p parseDataset_def EPSILON_def)
  {
    assume "0.01 < (20 - a) * 0.2"
    with n c have w: "True = (needsUpdate (mouseMoved u) (marker a) \<and>
        transformChanged (marker (a + (20 - a) * 0.2)) (elements u 0))"
      by simp
    note r = animate_marker [OF g up w]
    show "pulledTo (frame t) (a + (20 - a) * 0.2) (Suc k)"
      unfolding f pulledTo_def using m by (simp add: r p)
  }
  {
    assume "(20 - a) * 0.2 \<le> 0.01"
    with n c have w: "False = (needsUpdate (mouseMoved u) (marker a) \<and>
        transformChanged (marker (a + (20 - a) * 0.2)) (elements u 0))"
      by simp
    note r = animate_marker [OF g up w]
    show "gridPoints (frame t) = [marker (a + (20 - a) * 0.2)] \<and>
           \<not> isAnimating (frame t) \<and> pendingFrames (frame t) = [] \<and>
           transformWrites (frame t) = transformWrites t"
      unfolding f using m by (simp add: r p)
  }
qed

lemma pulled_frames:
  "n < 27 \<Longrightarrow>
   pulledTo ((frame ^^ Suc n) (mousemove 25 25 (initial 0 0))) (20 - 20 * 0.8 ^ Suc n)
     (Suc (Suc n))"
proof (induction n)
  case 0
  show ?case using pulledTo_first by (simp add: numeral_2_eq_2)
next
  case (Suc n)
  let ?t = "(frame ^^ Suc n) (mousemove 25 25 (initial 0 0))"
  let ?a = "20 - 20 * (0.8::real) ^ Suc n"
  from Suc have t: "pulledTo ?t ?a (Suc (Suc n))" by simp
  have "(0.8::real) ^ Suc n \<le> 0.8 ^ 1" "0 < (0.8::real) ^ Suc n"
    by (intro power_decreasing) simp_all
  then have a: "4 \<le> ?a" "?a < 20" by simp_all
  have "0.01 < 4 * (0.8::real) ^ Suc n"
    using Suc.prems by (intro pull_increments(1)) simp
  then have i: "0.01 < (20 - ?a) * 0.2" by simp
  have e: "?a + (20 - ?a) * 0.2 = 20 - 20 * 0.8 ^ Suc (Suc n)"
    by (simp add: field_simps)
  from pulledTo_frame(1) [OF t a i] show ?case
    by (simp only: e funpow.simps o_apply)
qed

lemma last_frame:
  defines "s0 \<equiv> mousemove 25 25 (initial 0 0)"
  shows "isAnimating ((frame ^^ 27) s0)"
    and "gridPoints ((frame ^^ 28) s0) = [marker (20 - 20 * 0.8 ^ 28)]"
    and "\<not> isAnimating ((frame ^^ 28) s0)"
    and "pendingFrames ((frame ^^ 28) s0) = []"
    and "transformWrites ((frame ^^ 28) s0) = transformWrites ((frame ^^ 27) s0)"
proof -
  let ?a = "20 - 20 * (0.8::real) ^ 27"
  have s27: "Suc 26 = (27::nat)" and s28: "Suc 27 = (28::nat)" by simp_all
  have "pulledTo ((frame ^^ Suc 26) s0) (20 - 20 * 0.8 ^ Suc 26) (Suc (Suc 26))"
    unfolding s0_def by (rule pulled_frames) simp
  then have t: "pulledTo ((frame ^^ 27) s0) ?a 28"
    by (simp only: s27 s28)
  then show "isAnimating ((frame ^^ 27) s0)"
    by (simp only: pulledTo_def)
  have "(0.8::real) ^ 27 \<le> 0.8 ^ 1" "0 < (0.8::real) ^ 27"
    by (intro power_decreasing) simp_all
  then have a: "4 \<le> ?a" "?a < 20" by simp_all
  have i: "(20 - ?a) * 0.2 \<le> 0.01"
    using pull_increments(2) by simp
  have "(0.8::real) ^ 28 = 0.8 * 0.8 ^ 27"
    by (simp only: s28 [symmetric] power_Suc)
  then have e: "?a + (20 - ?a) * 0.2 = 20 - 20 * 0.8 ^ 28"
    by (simp add: field_simps)
  have f: "frame ((frame ^^ 27) s0) = (frame ^^ 28) s0"
    by (simp only: s28 [symmetric] funpow.simps o_apply)
  from pulledTo_frame(2) [OF t a i, unfolded f e]
  show "gridPoints ((frame ^^ 28) s0) = [marker (20 - 20 * 0.8 ^ 28)]"
    and "\<not> isAnimating ((frame ^^ 28) s0)"
    and "pendingFrames ((frame ^^ 28) s0) = []"
    and "transformWrites ((frame ^^ 28) s0) = transformWrites ((frame ^^ 27) s0)"
    by blast+
qed

section \<open>The claims\<close>

text \<open>
  C1, as amended.  For every point at least \<open>PULL_DISTANCE\<close> from a pointer that stays where
  it is, steps taken one after another bring the point's displacement within \<open>EPSILON\<close> of
  zero on both axes after finitely many steps, and from then on the point does not change.
  Once every point is within \<open>EPSILON\<close> of zero on both axes and the pointer has not moved, a
  step changes no point, assigns no transform and stops the driver.
\<close>

theorem far_pointer_settles:
  "(\<forall>i<length (gridPoints s).
      PULL_DISTANCE \<le> distance (mouseX s) (mouseY s) (gridPoints s ! i) \<longrightarrow>
      (\<exists>n. \<forall>m\<ge>n. settled (gridPoints ((animate ^^ m) s) ! i) \<and>
         gridPoints ((animate ^^ m) s) ! i = gridPoints ((animate ^^ n) s) ! i)) \<and>
   ((\<forall>p\<in>set (gridPoints s). settled p) \<and> \<not> mouseMoved s \<longrightarrow>
      gridPoints (animate s) = gridPoints s \<and>
      transformWrites (animate s) = transformWrites s \<and>
      \<not> isAnimating (animate s))"
proof (intro conjI allI impI)
  fix i
  assume "i < length (gridPoints s)"
    and "PULL_DISTANCE \<le> distance (mouseX s) (mouseY s) (gridPoints s ! i)"
  then show "\<exists>n. \<forall>m\<ge>n. settled (gridPoints ((animate ^^ m) s) ! i) \<and>
         gridPoints ((animate ^^ m) s) ! i = gridPoints ((animate ^^ n) s) ! i"
    by (rule far_point_comes_to_rest)
next
  assume a: "(\<forall>p\<in>set (gridPoints s). settled p) \<and> \<not> mouseMoved s"
  then show "gridPoints (animate s) = gridPoints s"
    by (simp add: gridPoints_animate settled_fixed map_idI)
  from a have "\<forall>p\<in>set (gridPoints s). \<not> (needsUpdate (mouseMoved s) p \<and>
       transformChanged (settle (mouseX s) (mouseY s) p) (elements s (element p)))"
    by (auto simp add: needsUpdate_def settled_def)
  then have q: "transformWrites (animate s) = transformWrites s"
    using animate_quiet by blast
  then show "transformWrites (animate s) = transformWrites s" .
  obtain E W where
    "transformWrites (animate s) = transformWrites s @ W"
    "isAnimating (animate s) = (isAnimating s \<and> \<not> (W = [] \<and> \<not> mouseMoved s))"
    by (rule animate_fields [of s])
  with q a show "\<not> isAnimating (animate s)" by simp
qed

text \<open>
  In \<open>released\<close> the only point is \<open>975\<close> pixels from the pointer and comes to rest; in
  \<open>jitter\<close> the only point is at rest, the pointer has not moved and the driver runs: the
  step stops it.
\<close>

theorem far_pointer_settles_witness:
  "0 < length (gridPoints released) \<and>
   PULL_DISTANCE \<le> distance (mouseX released) (mouseY released) (gridPoints released ! 0) \<and>
   (\<exists>n. \<forall>m\<ge>n. settled (gridPoints ((animate ^^ m) released) ! 0) \<and>
      gridPoints ((animate ^^ m) released) ! 0 = gridPoints ((animate ^^ n) released) ! 0) \<and>
   gridPoints jitter = [marker 0] \<and> settled (marker 0) \<and> \<not> mouseMoved jitter \<and>
   isAnimating jitter \<and> \<not> isAnimating (animate jitter)"
proof -
  have h: "0 < length (gridPoints released)"
    "PULL_DISTANCE \<le> distance (mouseX released) (mouseY released) (gridPoints released ! 0)"
    by (simp_all add: released_fields marker_far(1))
  have j: "gridPoints jitter = [marker 0]" "settled (marker 0)" "\<not> mouseMoved jitter"
    "isAnimating jitter"
    by (simp_all add: jitter_fields animate_jitter(1) settled_def EPSILON_def)
  from far_pointer_settles [of released] far_pointer_settles [of jitter] h j
  show ?thesis by simp
qed

text \<open>
  The claim as stated has the displacement reach exactly \<open>(0, 0)\<close>.  In \<open>released\<close> the
  pointer stays \<open>975\<close> pixels from the point, which is displaced by \<open>0.013\<close>: the first step
  leaves \<open>0.00936\<close>, which line 82 takes for settled, and every later step skips the point.
  Its displacement is never \<open>0\<close>.
\<close>

theorem residue_never_zero_counterexample:
  "PULL_DISTANCE \<le> distance (mouseX released) (mouseY released) (gridPoints released ! 0) \<and>
   offsetX (gridPoints released ! 0) = 0.013 \<and>
   (\<forall>n. offsetX (gridPoints ((animate ^^ Suc n) released) ! 0) = 0.00936) \<and>
   \<not> (\<exists>n. offsetX (gridPoints ((animate ^^ n) released) ! 0) = 0 \<and>
            offsetY (gridPoints ((animate ^^ n) released) ! 0) = 0)"
proof -
  have a: "offsetX (gridPoints ((animate ^^ Suc n) released) ! 0) = 0.00936" for n
    by (simp add: released_residue del: funpow.simps)
  have "offsetX (gridPoints ((animate ^^ n) released) ! 0) \<noteq> 0" for n
  proof (cases n)
    case 0
    then show ?thesis by (simp add: released_fields)
  next
    case (Suc k)
    then show ?thesis using a [of k] by (simp del: funpow.simps)
  qed
  then show ?thesis
    using a by (simp add: released_fields marker_far(1) del: funpow.simps)
qed

text \<open>
  C2, as amended.  For a point at least \<open>PULL_DISTANCE\<close> from the pointer whose update is
  not skipped, the new displacement on each axis is the eased value
  \<open>offset + (0 - offset) * 0.2\<close> times \<open>0.9\<close>, except that it is exactly \<open>0\<close> when the
  magnitude of the eased value, before the decay, is at most \<open>EPSILON\<close>.
\<close>

theorem out_of_range_decay:
  assumes "i < length (gridPoints s)"
    and "distance (mouseX s) (mouseY s) (gridPoints s ! i) \<ge> PULL_DISTANCE"
    and "needsUpdate (mouseMoved s) (gridPoints s ! i)"
  shows "offsetX (gridPoints (animate s) ! i) =
           (let eased = offsetX (gridPoints s ! i) + (0 - offsetX (gridPoints s ! i)) * 0.2
            in if \<bar>eased\<bar> \<le> EPSILON then 0 else eased * 0.9) \<and>
         offsetY (gridPoints (animate s) ! i) =
           (let eased = offsetY (gridPoints s ! i) + (0 - offsetY (gridPoints s ! i)) * 0.2
            in if \<bar>eased\<bar> \<le> EPSILON then 0 else eased * 0.9)"
proof -
  have "gridPoints (animate s) ! i = settle (mouseX s) (mouseY s) (gridPoints s ! i)"
    using assms(1,3) by (simp add: nth_gridPoints_animate updatePoint_def)
  then show ?thesis
    by (simp add: settle_far [OF assms(2)] Let_def not_less)
qed

theorem out_of_range_decay_witness:
  "0 < length (gridPoints released) \<and>
   distance (mouseX released) (mouseY released) (gridPoints released ! 0) \<ge> PULL_DISTANCE \<and>
   needsUpdate (mouseMoved released) (gridPoints released ! 0) \<and>
   offsetX (gridPoints released ! 0) = 0.013 \<and> offsetY (gridPoints released ! 0) = 0 \<and>
   offsetX (gridPoints (animate released) ! 0) = 0.0104 * 0.9 \<and>
   offsetY (gridPoints (animate released) ! 0) = 0"
proof -
  have h: "0 < length (gridPoints released)"
    "distance (mouseX released) (mouseY released) (gridPoints released ! 0) \<ge> PULL_DISTANCE"
    "needsUpdate (mouseMoved released) (gridPoints released ! 0)"
    by (simp_all add: released_fields marker_far(1) needsUpdate_def animate_released(1))
  from out_of_range_decay [OF h] h show ?thesis
    by (simp add: released_fields EPSILON_def)
qed

text \<open>
  The claim as stated tests the decayed value against \<open>EPSILON\<close>.  In \<open>released\<close> the point
  is displaced by \<open>0.013\<close>, the pointer is \<open>975\<close> pixels away and has moved; the eased value
  is \<open>0.0104\<close>, the decayed value \<open>0.00936\<close> is below \<open>EPSILON\<close>, and the step stores
  \<open>0.00936\<close>, not \<open>0\<close>.
\<close>

theorem decayed_value_below_epsilon_counterexample:
  "distance (mouseX released) (mouseY released) (gridPoints released ! 0) \<ge> PULL_DISTANCE \<and>
   needsUpdate (mouseMoved released) (gridPoints released ! 0) \<and>
   offsetX (gridPoints released ! 0) = 0.013 \<and>
   \<bar>(offsetX (gridPoints released ! 0) + (0 - offsetX (gridPoints released ! 0)) * 0.2) * 0.9\<bar>
      < EPSILON \<and>
   offsetX (gridPoints (animate released) ! 0) = 0.00936 \<and>
   offsetX (gridPoints (animate released) ! 0) \<noteq> 0"
  by (simp add: released_fields marker_far(1) needsUpdate_def animate_released EPSILON_def)

text \<open>
  C3.  In a viewport of width \<open>w \<ge> 0\<close> and height \<open>h \<ge> 0\<close>, \<^verbatim>\<open>generateGrid\<close> adds
  \<open>\<lceil>h / CELL_SIZE\<rceil> + 1\<close> rows of \<open>\<lceil>w / CELL_SIZE\<rceil> + 1\<close> points each to the grid, row by
  row; their number is the product, and the point of row \<open>row\<close> and column \<open>col\<close> is at
  \<open>(col * CELL_SIZE, row * CELL_SIZE)\<close> with zero displacement.  The cell size of the program
  is the constant \<open>CELL_SIZE = 50\<close>.
\<close>

theorem generateGrid_rows_and_columns:
  assumes "0 \<le> innerWidth s" and "0 \<le> innerHeight s"
  shows "\<exists>rows cols.
     int rows = \<lceil>innerHeight s / CELL_SIZE\<rceil> + 1 \<and>
     int cols = \<lceil>innerWidth s / CELL_SIZE\<rceil> + 1 \<and>
     gridPoints (generateGrid s) = gridPoints s @ grid rows cols (nextElement s) \<and>
     length (gridPoints (generateGrid s)) = length (gridPoints s) + rows * cols \<and>
     (\<forall>row<rows. \<forall>col<cols.
        gridPoints (generateGrid s) ! (length (gridPoints s) + (row * cols + col)) =
          \<lparr>x = real col * CELL_SIZE, y = real row * CELL_SIZE, offsetX = 0, offsetY = 0,
           element = nextElement s + (row * cols + col)\<rparr>)"
proof -
  let ?rows = "nat (rowMax s)" and ?cols = "nat (colMax s)"
  have "0 \<le> \<lceil>innerHeight s / CELL_SIZE\<rceil>" "0 \<le> \<lceil>innerWidth s / CELL_SIZE\<rceil>"
    using assms by (simp_all add: CELL_SIZE_def)
  then have r: "int ?rows = \<lceil>innerHeight s / CELL_SIZE\<rceil> + 1"
    and c: "int ?cols = \<lceil>innerWidth s / CELL_SIZE\<rceil> + 1"
    by (simp_all add: rowMax_def colMax_def)
  obtain E where
    g: "gridPoints (generateGrid s) = gridPoints s @ grid ?rows ?cols (nextElement s)"
    by (rule generateGrid_fields [of s])
  have "gridPoints (generateGrid s) ! (length (gridPoints s) + (row * ?cols + col)) =
          \<lparr>x = real col * CELL_SIZE, y = real row * CELL_SIZE, offsetX = 0, offsetY = 0,
           element = nextElement s + (row * ?cols + col)\<rparr>"
    if "row < ?rows" "col < ?cols" for row col
    using that by (simp add: g nth_grid)
  then show ?thesis
    using r c g by (intro exI [of _ ?rows] exI [of _ ?cols]) simp
qed

text \<open>The scenario of the specification: \<open>1000\<close> by \<open>800\<close> pixels, \<open>17\<close> rows, \<open>21\<close> columns.\<close>

theorem generateGrid_rows_and_columns_witness:
  "0 \<le> innerWidth (loaded 1000 800) \<and> 0 \<le> innerHeight (loaded 1000 800) \<and>
   \<lceil>innerHeight (loaded 1000 800) / CELL_SIZE\<rceil> + 1 = 17 \<and>
   \<lceil>innerWidth (loaded 1000 800) / CELL_SIZE\<rceil> + 1 = 21 \<and>
   gridPoints (initial 1000 800) = grid 17 21 0 \<and>
   length (gridPoints (initial 1000 800)) = 357"
proof -
  have h: "0 \<le> innerWidth (loaded 1000 800)" "0 \<le> innerHeight (loaded 1000 800)"
    by (simp_all add: loaded_def)
  have n: "\<lceil>innerHeight (loaded 1000 800) / CELL_SIZE\<rceil> + 1 = 17"
    "\<lceil>innerWidth (loaded 1000 800) / CELL_SIZE\<rceil> + 1 = 21"
    by (simp_all add: loaded_def CELL_SIZE_def)
  from generateGrid_rows_and_columns [OF h] obtain rows cols where
    "int rows = \<lceil>innerHeight (loaded 1000 800) / CELL_SIZE\<rceil> + 1"
    "int cols = \<lceil>innerWidth (loaded 1000 800) / CELL_SIZE\<rceil> + 1"
    and g: "gridPoints (generateGrid (loaded 1000 800)) =
      gridPoints (loaded 1000 800) @ grid rows cols (nextElement (loaded 1000 800))"
    by blast
  with n have "rows = 17" "cols = 21" by simp_all
  with g have "gridPoints (initial 1000 800) = grid 17 21 0"
    by (simp add: initial_def loaded_def)
  then show ?thesis
    using h n by simp
qed

text \<open>
  C4.  The pointer is exactly at the centre of a point's cell, the point is at rest, and the
  step sees the pointer as moved.  Then the distance is \<open>0\<close>, the direction
  \<^verbatim>\<open>Math.atan2(0, 0)\<close> is \<open>0\<close>, and after the step the point is displaced by
  \<open>0.2 * PULL_STRENGTH * CELL_SIZE = 4\<close> pixels along x and by \<open>0\<close> along y.
\<close>

theorem pointer_at_centre_first_step:
  assumes "i < length (gridPoints s)"
    and "mouseX s = x (gridPoints s ! i) + CELL_SIZE / 2"
    and "mouseY s = y (gridPoints s ! i) + CELL_SIZE / 2"
    and "offsetX (gridPoints s ! i) = 0" and "offsetY (gridPoints s ! i) = 0"
    and "mouseMoved s"
  shows "distance (mouseX s) (mouseY s) (gridPoints s ! i) = 0 \<and>
         atan2 0 0 = 0 \<and>
         offsetX (gridPoints (animate s) ! i) = 0.2 * PULL_STRENGTH * CELL_SIZE \<and>
         offsetX (gridPoints (animate s) ! i) = 4 \<and>
         offsetY (gridPoints (animate s) ! i) = 0"
proof -
  let ?p = "gridPoints s ! i"
  have d: "distance (mouseX s) (mouseY s) ?p = 0"
    and t: "target (mouseX s) (mouseY s) ?p = (PULL_STRENGTH * CELL_SIZE, 0)"
    using assms(2,3) by (rule target_at_centre)+
  have "gridPoints (animate s) ! i = settle (mouseX s) (mouseY s) ?p"
    using assms(1,6) by (simp add: nth_gridPoints_animate updatePoint_def needsUpdate_def)
  then show ?thesis
    using d t assms(4,5)
    by (simp add: settle_def Let_def constants atan2_def)
qed

theorem pointer_at_centre_first_step_witness:
  "0 < length (gridPoints atCentre) \<and>
   mouseX atCentre = x (gridPoints atCentre ! 0) + CELL_SIZE / 2 \<and>
   mouseY atCentre = y (gridPoints atCentre ! 0) + CELL_SIZE / 2 \<and>
   offsetX (gridPoints atCentre ! 0) = 0 \<and> offsetY (gridPoints atCentre ! 0) = 0 \<and>
   mouseMoved atCentre \<and>
   offsetX (gridPoints (animate atCentre) ! 0) = 4 \<and>
   offsetY (gridPoints (animate atCentre) ! 0) = 0"
proof -
  have h: "0 < length (gridPoints atCentre)"
    "mouseX atCentre = x (gridPoints atCentre ! 0) + CELL_SIZE / 2"
    "mouseY atCentre = y (gridPoints atCentre ! 0) + CELL_SIZE / 2"
    "offsetX (gridPoints atCentre ! 0) = 0" "offsetY (gridPoints atCentre ! 0) = 0"
    "mouseMoved atCentre"
    by (simp_all add: atCentre_fields atCentre_moved CELL_SIZE_def)
  from pointer_at_centre_first_step [OF h] h show ?thesis by simp
qed

text \<open>
  C5.  A step taken while the driver is running (\<^verbatim>\<open>isAnimating\<close>) stops the driver, and
  requests no frame, exactly when it assigned no transform and the pointer has not moved:
  then the queue of requests only loses the request named by \<^verbatim>\<open>rafId\<close>, if it held it.
  In every other case the driver stays running and the queue gains exactly one request,
  the new \<^verbatim>\<open>rafId\<close>.
\<close>

theorem step_stops_or_schedules:
  assumes "isAnimating s"
  shows "if transformWrites (animate s) = transformWrites s \<and> \<not> mouseMoved s
    then \<not> isAnimating (animate s) \<and>
         pendingFrames (animate s) = removeAll (rafId s) (pendingFrames s) \<and>
         lastHandle (animate s) = lastHandle s
    else isAnimating (animate s) \<and>
         pendingFrames (animate s) = pendingFrames s @ [rafId (animate s)] \<and>
         rafId (animate s) = Suc (lastHandle s)"
proof -
  obtain E W where
    "transformWrites (animate s) = transformWrites s @ W"
    "isAnimating (animate s) = (isAnimating s \<and> \<not> (W = [] \<and> \<not> mouseMoved s))"
    "pendingFrames (animate s) =
       (if W = [] \<and> \<not> mouseMoved s then removeAll (rafId s) (pendingFrames s)
        else pendingFrames s @ [Suc (lastHandle s)])"
    "rafId (animate s) = (if W = [] \<and> \<not> mouseMoved s then rafId s else Suc (lastHandle s))"
    "lastHandle (animate s) =
       (if W = [] \<and> \<not> mouseMoved s then lastHandle s else Suc (lastHandle s))"
    by (rule animate_fields [of s])
  then show ?thesis using assms by auto
qed

text \<open>
  Both cases happen: the step of \<open>atCentre\<close> sees the pointer moved and requests frame \<open>2\<close>;
  the step of \<open>grazed\<close> assigns nothing, sees the pointer still, and stops the driver.
\<close>

theorem step_stops_or_schedules_witness:
  "isAnimating atCentre \<and> mouseMoved atCentre \<and>
   isAnimating (animate atCentre) \<and> pendingFrames (animate atCentre) = [2] \<and>
   isAnimating grazed \<and> \<not> mouseMoved grazed \<and>
   transformWrites (animate grazed) = transformWrites grazed \<and>
   \<not> isAnimating (animate grazed) \<and> pendingFrames (animate grazed) = []"
  using step_stops_or_schedules [of atCentre] step_stops_or_schedules [of grazed]
  by (simp add: atCentre_fields atCentre_moved grazed_fields animate_grazed(2,3))

text \<open>
  C6, as amended.  The pointer stays exactly at the centre of a point's cell; the point
  starts at rest and the first step sees the pointer as moved, as when it has just
  arrived.  Then over the first \<open>28\<close> steps taken one after another the length of the
  displacement grows strictly at every step and stays below
  \<open>PULL_STRENGTH * CELL_SIZE = 20\<close> pixels.  Each of the first \<open>27\<close> steps adds more than
  \<open>EPSILON\<close>, the \<open>28\<close>th adds at most \<open>EPSILON\<close>, and the length is then above \<open>19.96\<close>:
  these are the frames the driver takes when no other point keeps it running.
\<close>

theorem pull_at_centre_grows:
  assumes "i < length (gridPoints s)"
    and "mouseX s = x (gridPoints s ! i) + CELL_SIZE / 2"
    and "mouseY s = y (gridPoints s ! i) + CELL_SIZE / 2"
    and "offsetX (gridPoints s ! i) = 0" and "offsetY (gridPoints s ! i) = 0"
    and "mouseMoved s"
  shows "(\<forall>n<28. magnitude (gridPoints ((animate ^^ n) s) ! i) <
                 magnitude (gridPoints ((animate ^^ Suc n) s) ! i) \<and>
               magnitude (gridPoints ((animate ^^ Suc n) s) ! i) < PULL_STRENGTH * CELL_SIZE) \<and>
         (\<forall>n<27. EPSILON < magnitude (gridPoints ((animate ^^ Suc n) s) ! i) -
                           magnitude (gridPoints ((animate ^^ n) s) ! i)) \<and>
         magnitude (gridPoints ((animate ^^ 28) s) ! i) -
           magnitude (gridPoints ((animate ^^ 27) s) ! i) \<le> EPSILON \<and>
         19.96 < magnitude (gridPoints ((animate ^^ 28) s) ! i)"
proof -
  have u: "needsUpdate (mouseMoved s) (gridPoints s ! i)"
    using assms(6) by (simp add: needsUpdate_def)
  have p: "0 < (0.8::real) ^ n" for n
    by simp
  have m: "magnitude (gridPoints ((animate ^^ n) s) ! i) = 20 - 20 * 0.8 ^ n" for n
  proof -
    have "offsetX (gridPoints ((animate ^^ n) s) ! i) =
          20 - (20 - offsetX (gridPoints s ! i)) * 0.8 ^ n \<and>
        offsetY (gridPoints ((animate ^^ n) s) ! i) = 0"
      using assms(1,2,3,5) _ _ u by (rule pulled_displacement) (simp_all add: assms(4))
    moreover have "(0.8::real) ^ n \<le> 1"
      by (rule power_le_one) simp_all
    ultimately show ?thesis
      by (simp add: magnitude_def assms(4) del: funpow.simps)
  qed
  have d: "magnitude (gridPoints ((animate ^^ Suc n) s) ! i) -
      magnitude (gridPoints ((animate ^^ n) s) ! i) = 4 * 0.8 ^ n" for n
    by (simp only: m) (simp add: field_simps)
  have grow: "magnitude (gridPoints ((animate ^^ n) s) ! i) <
        magnitude (gridPoints ((animate ^^ Suc n) s) ! i) \<and>
      magnitude (gridPoints ((animate ^^ Suc n) s) ! i) < PULL_STRENGTH * CELL_SIZE" for n
  proof -
    have "PULL_STRENGTH * CELL_SIZE = 20"
      by (simp add: constants)
    then show ?thesis
      using d [of n] p [of n] p [of "Suc n"] m [of "Suc n"] by linarith
  qed
  have more: "EPSILON < magnitude (gridPoints ((animate ^^ Suc n) s) ! i) -
      magnitude (gridPoints ((animate ^^ n) s) ! i)" if "n < 27" for n
    using pull_increments(1) [OF that] by (simp only: d EPSILON_def)
  have "Suc 27 = (28::nat)" by simp
  with d [of 27] have "magnitude (gridPoints ((animate ^^ 28) s) ! i) -
      magnitude (gridPoints ((animate ^^ 27) s) ! i) = 4 * 0.8 ^ 27"
    by (simp only:)
  then have last: "magnitude (gridPoints ((animate ^^ 28) s) ! i) -
      magnitude (gridPoints ((animate ^^ 27) s) ! i) \<le> EPSILON"
    using pull_increments(2) by (simp only: EPSILON_def)
  have "19.96 < magnitude (gridPoints ((animate ^^ 28) s) ! i)"
    using pull_increments(3) by (simp only: m)
  with grow more last show ?thesis by blast
qed

text \<open>
  From rest, with the pointer just arrived: \<open>0\<close>, then \<open>4\<close>, and on to about \<open>19.961\<close> at
  the \<open>28\<close>th step.  Taken by frames from the arrival of the pointer, the driver is still
  running after \<open>27\<close> frames and stops at the \<open>28\<close>th, which writes nothing.
\<close>

theorem pull_at_centre_grows_witness:
  "0 < length (gridPoints atCentre) \<and>
   mouseX atCentre = x (gridPoints atCentre ! 0) + CELL_SIZE / 2 \<and>
   mouseY atCentre = y (gridPoints atCentre ! 0) + CELL_SIZE / 2 \<and>
   offsetX (gridPoints atCentre ! 0) = 0 \<and> offsetY (gridPoints atCentre ! 0) = 0 \<and>
   mouseMoved atCentre \<and>
   magnitude (gridPoints atCentre ! 0) = 0 \<and>
   magnitude (gridPoints (animate atCentre) ! 0) = 4 \<and>
   magnitude (gridPoints ((animate ^^ 27) atCentre) ! 0) <
     magnitude (gridPoints ((animate ^^ 28) atCentre) ! 0) \<and>
   magnitude (gridPoints ((animate ^^ 28) atCentre) ! 0) -
     magnitude (gridPoints ((animate ^^ 27) atCentre) ! 0) \<le> EPSILON \<and>
   19.96 < magnitude (gridPoints ((animate ^^ 28) atCentre) ! 0) \<and>
   magnitude (gridPoints ((animate ^^ 28) atCentre) ! 0) < PULL_STRENGTH * CELL_SIZE \<and>
   isAnimating ((frame ^^ 27) (mousemove 25 25 (initial 0 0))) \<and>
   \<not> isAnimating ((frame ^^ 28) (mousemove 25 25 (initial 0 0))) \<and>
   transformWrites ((frame ^^ 28) (mousemove 25 25 (initial 0 0))) =
     transformWrites ((frame ^^ 27) (mousemove 25 25 (initial 0 0))) \<and>
   19.96 < magnitude (gridPoints ((frame ^^ 28) (mousemove 25 25 (initial 0 0))) ! 0) \<and>
   magnitude (gridPoints ((frame ^^ 28) (mousemove 25 25 (initial 0 0))) ! 0) < 20"
proof -
  have h: "0 < length (gridPoints atCentre)"
    "mouseX atCentre = x (gridPoints atCentre ! 0) + CELL_SIZE / 2"
    "mouseY atCentre = y (gridPoints atCentre ! 0) + CELL_SIZE / 2"
    "offsetX (gridPoints atCentre ! 0) = 0" "offsetY (gridPoints atCentre ! 0) = 0"
    "mouseMoved atCentre"
    by (simp_all add: atCentre_fields atCentre_moved constants)
  have v: "magnitude (gridPoints atCentre ! 0) = 0"
    "magnitude (gridPoints (animate atCentre) ! 0) = 4"
    by (simp_all add: magnitude_def atCentre_fields animate_atCentre)
  note t = pull_at_centre_grows [OF h]
  have s: "Suc 27 = (28::nat)" by simp
  from t have "magnitude (gridPoints ((animate ^^ 27) atCentre) ! 0) <
      magnitude (gridPoints ((animate ^^ Suc 27) atCentre) ! 0) \<and>
    magnitude (gridPoints ((animate ^^ Suc 27) atCentre) ! 0) < PULL_STRENGTH * CELL_SIZE"
    by (elim conjE allE [of _ 27]) (simp del: funpow.simps)
  then have a: "magnitude (gridPoints ((animate ^^ 27) atCentre) ! 0) <
      magnitude (gridPoints ((animate ^^ 28) atCentre) ! 0)"
    "magnitude (gridPoints ((animate ^^ 28) atCentre) ! 0) < PULL_STRENGTH * CELL_SIZE"
    by (simp_all only: s)
  from t have b: "magnitude (gridPoints ((animate ^^ 28) atCentre) ! 0) -
     magnitude (gridPoints ((animate ^^ 27) atCentre) ! 0) \<le> EPSILON"
    "19.96 < magnitude (gridPoints ((animate ^^ 28) atCentre) ! 0)"
    by blast+
  have "(0::real) < 0.8 ^ 28" by simp
  then have c: "19.96 < magnitude (marker (20 - 20 * 0.8 ^ 28))"
    "magnitude (marker (20 - 20 * 0.8 ^ 28)) < 20"
    using pull_increments(3) by (simp_all add: magnitude_def)
  have d: "19.96 < magnitude (gridPoints ((frame ^^ 28) (mousemove 25 25 (initial 0 0))) ! 0)"
    "magnitude (gridPoints ((frame ^^ 28) (mousemove 25 25 (initial 0 0))) ! 0) < 20"
    using c by (simp_all only: last_frame(2) nth_Cons_0)
  from h v a b d last_frame(1,3,5) show ?thesis by blast
qed

text \<open>
  The claim as stated asks nothing of the point or of the first step.  In \<open>afterResize\<close> the
  pointer stays at the centre of the only point, which the resize has just created at rest;
  the pointer has not moved since the last step, so line 82 skips the point at every step:
  its displacement stays \<open>0\<close> and does not grow.
\<close>

theorem pull_at_centre_counterexample:
  "gridPoints afterResize = [\<lparr>x = 0, y = 0, offsetX = 0, offsetY = 0, element = 1\<rparr>] \<and>
   mouseX afterResize = x (gridPoints afterResize ! 0) + CELL_SIZE / 2 \<and>
   mouseY afterResize = y (gridPoints afterResize ! 0) + CELL_SIZE / 2 \<and>
   \<not> mouseMoved afterResize \<and> isAnimating afterResize \<and>
   (\<forall>n. magnitude (gridPoints ((animate ^^ n) afterResize) ! 0) = 0) \<and>
   \<not> magnitude (gridPoints afterResize ! 0) < magnitude (gridPoints (animate afterResize) ! 0)"
proof -
  have "magnitude (gridPoints ((animate ^^ n) afterResize) ! 0) = 0" for n
    by (simp add: afterResize_stays(2) afterResize_fields(1) magnitude_def del: funpow.simps)
  then show ?thesis
    using afterResize_stays(2) [of 1]
    by (simp add: afterResize_fields afterResize_stays(1) CELL_SIZE_def)
qed

text \<open>
  C7, as amended.  If the pointer has not moved since the last step and every point either
  is within \<open>EPSILON\<close> of zero displacement on both axes, or has the displacement this step
  computes for it within \<open>EPSILON\<close> of the last written one on both axes, then the step
  assigns no transform and leaves every element as it is.
\<close>

theorem no_write_when_nothing_changes:
  assumes "\<not> mouseMoved s"
    and "\<forall>p\<in>set (gridPoints s). settled p \<or>
           \<not> transformChanged (settle (mouseX s) (mouseY s) p) (elements s (element p))"
  shows "transformWrites (animate s) = transformWrites s \<and> elements (animate s) = elements s"
proof (rule animate_quiet)
  show "\<forall>p\<in>set (gridPoints s). \<not> (needsUpdate (mouseMoved s) p \<and>
       transformChanged (settle (mouseX s) (mouseY s) p) (elements s (element p)))"
    using assms by (auto simp add: needsUpdate_def settled_def)
qed

text \<open>
  In \<open>grazed\<close> the point is displaced by \<open>0.012\<close>, which was written; this step computes
  \<open>0.0216\<close>, within \<open>EPSILON\<close> of it, and writes nothing.
\<close>

theorem no_write_when_nothing_changes_witness:
  "\<not> mouseMoved grazed \<and> gridPoints grazed = [marker 0.012] \<and> \<not> settled (marker 0.012) \<and>
   settle (mouseX grazed) (mouseY grazed) (marker 0.012) = marker 0.0216 \<and>
   \<not> transformChanged (marker 0.0216) (elements grazed (element (marker 0.012))) \<and>
   transformWrites (animate grazed) = transformWrites grazed \<and>
   elements (animate grazed) = elements grazed"
proof -
  have "updatePoint True 623.2 25 (marker 0.012) = marker 0.0216"
    by (simp add: marker_to_the_right [where d = "598.2"])
  then have s: "settle (mouseX grazed) (mouseY grazed) (marker 0.012) = marker 0.0216"
    by (simp add: updatePoint_def needsUpdate_def grazed_fields)
  have c: "\<not> transformChanged (marker 0.0216) (elements grazed (element (marker 0.012)))"
    by (simp add: transformChanged_def grazed_fields parseDataset_def EPSILON_def)
  have h: "\<forall>p\<in>set (gridPoints grazed). settled p \<or>
           \<not> transformChanged (settle (mouseX grazed) (mouseY grazed) p) (elements grazed (element p))"
    using s c by (simp add: grazed_fields)
  from no_write_when_nothing_changes [OF animate_grazed(3) h] s c show ?thesis
    by (simp add: animate_grazed(3) grazed_fields settled_def EPSILON_def)
qed

text \<open>
  The claim as stated compares the displacement before the step with the last written one.
  In \<open>pulledOnce\<close> the pointer has not moved and the point's displacement \<open>(4, 0)\<close> is the
  one last written; the step moves the point on to \<open>(7.2, 0)\<close> and writes it.
\<close>

theorem write_after_unchanged_counterexample:
  "\<not> mouseMoved pulledOnce \<and> gridPoints pulledOnce = [marker 4] \<and>
   \<bar>offsetX (marker 4) - parseDataset (datasetOx (elements pulledOnce (element (marker 4))))\<bar>
     \<le> EPSILON \<and>
   \<bar>offsetY (marker 4) - parseDataset (datasetOy (elements pulledOnce (element (marker 4))))\<bar>
     \<le> EPSILON \<and>
   transformWrites (animate pulledOnce) = transformWrites pulledOnce @ [(0, 7.2, 0)] \<and>
   transformWrites (animate pulledOnce) \<noteq> transformWrites pulledOnce"
  by (simp add: animate_pulledOnce pulledOnce_fields parseDataset_def EPSILON_def)

text \<open>
  C8.  A resize while the driver is running, in a document whose elements were all created
  before (their references are below the allocation counter): the listener is
  \<^verbatim>\<open>generateGrid\<close> run on a state whose container and array have been emptied; the new array
  is the grid of the new viewport, built of new elements, and the container holds exactly
  the elements of the new points; no element of the old generation is still attached or
  referred to; every later step visits the new points only and leaves the old elements as
  they were; the driver is still running and the pending frame request is still queued.
\<close>

theorem resize_while_running:
  assumes "isAnimating s"
    and "\<forall>r\<in>set (children s) \<union> element ` set (gridPoints s). r < nextElement s"
  shows "resizeEvent w h s =
       generateGrid (s\<lparr>innerWidth := w, innerHeight := h, children := [], gridPoints := []\<rparr>) \<and>
     gridPoints (resizeEvent w h s) =
       grid (nat (\<lceil>h / CELL_SIZE\<rceil> + 1)) (nat (\<lceil>w / CELL_SIZE\<rceil> + 1)) (nextElement s) \<and>
     children (resizeEvent w h s) = map element (gridPoints (resizeEvent w h s)) \<and>
     (\<forall>r\<in>set (children s) \<union> element ` set (gridPoints s).
        r \<notin> set (children (resizeEvent w h s)) \<and>
        r \<notin> element ` set (gridPoints (resizeEvent w h s))) \<and>
     (\<forall>n. map element (gridPoints ((animate ^^ n) (resizeEvent w h s))) =
            map element (gridPoints (resizeEvent w h s)) \<and>
          (\<forall>r<nextElement s. elements ((animate ^^ n) (resizeEvent w h s)) r = elements s r)) \<and>
     isAnimating (resizeEvent w h s) \<and>
     pendingFrames (resizeEvent w h s) = pendingFrames s \<and>
     rafId (resizeEvent w h s) = rafId s"
proof -
  let ?s' = "resizeEvent w h s"
  let ?rows = "nat (\<lceil>h / CELL_SIZE\<rceil> + 1)" and ?cols = "nat (\<lceil>w / CELL_SIZE\<rceil> + 1)"
  obtain E where
    g: "gridPoints ?s' = grid ?rows ?cols (nextElement s)"
    and c: "children ?s' = [nextElement s..<nextElement s + ?rows * ?cols]"
    and e: "elements ?s' = E" "\<forall>r<nextElement s. E r = elements s r"
    and d: "isAnimating ?s' = isAnimating s" "rafId ?s' = rafId s"
      "pendingFrames ?s' = pendingFrames s"
    by (rule resizeEvent_fields [of w h s])
  have m: "map element (gridPoints ?s') = [nextElement s..<nextElement s + ?rows * ?cols]"
    by (simp add: g elements_of_grid)
  have fresh: "nextElement s \<le> r" if "r \<in> element ` set (gridPoints ?s')" for r
  proof -
    from that have "r \<in> set (map element (gridPoints ?s'))" by simp
    then show ?thesis by (simp add: m)
  qed
  have old: "r \<notin> set (children ?s') \<and> r \<notin> element ` set (gridPoints ?s')"
    if "r \<in> set (children s) \<union> element ` set (gridPoints s)" for r
  proof -
    from that assms(2) have "r < nextElement s" by blast
    then show ?thesis using fresh [of r] by (auto simp add: c)
  qed
  have steps: "elements ((animate ^^ n) ?s') r = elements s r" if "r < nextElement s" for n r
  proof -
    from that fresh [of r] have "r \<notin> element ` set (gridPoints ?s')" by auto
    then have "elements ((animate ^^ n) ?s') r = elements ?s' r"
      by (rule other_elements_funpow_animate)
    then show ?thesis using e that by simp
  qed
  show ?thesis
    using assms(1) d old steps
    by (simp add: resizeEvent_eq [symmetric] g [symmetric] c m elements_funpow_animate
        del: funpow.simps)
qed

text \<open>
  The window is resized to \<open>100\<close> by \<open>50\<close> pixels one frame after the pointer arrived: the
  point with element \<open>0\<close> gives way to \<open>2\<close> rows of \<open>3\<close> points with elements \<open>1\<close> to \<open>6\<close>, and
  frame request \<open>2\<close> stays queued.
\<close>

theorem resize_while_running_witness:
  "isAnimating (animate atCentre) \<and> children (animate atCentre) = [0] \<and>
   gridPoints (animate atCentre) = [marker 4] \<and> nextElement (animate atCentre) = 1 \<and>
   pendingFrames (animate atCentre) = [2] \<and>
   gridPoints (resizeEvent 100 50 (animate atCentre)) = grid 2 3 1 \<and>
   length (gridPoints (resizeEvent 100 50 (animate atCentre))) = 6 \<and>
   children (resizeEvent 100 50 (animate atCentre)) = [1..<7] \<and>
   0 \<notin> set (children (resizeEvent 100 50 (animate atCentre))) \<and>
   isAnimating (resizeEvent 100 50 (animate atCentre)) \<and>
   pendingFrames (resizeEvent 100 50 (animate atCentre)) = [2]"
proof -
  have h: "isAnimating (animate atCentre)"
    "\<forall>r\<in>set (children (animate atCentre)) \<union> element ` set (gridPoints (animate atCentre)).
       r < nextElement (animate atCentre)"
    by (simp_all add: animate_atCentre)
  have n: "nat (\<lceil>50 / CELL_SIZE\<rceil> + 1) = 2" "nat (\<lceil>100 / CELL_SIZE\<rceil> + 1) = 3"
    by (simp_all add: CELL_SIZE_def)
  from resize_while_running [OF h, of 100 50, THEN conjunct2]
  have "gridPoints (resizeEvent 100 50 (animate atCentre)) = grid 2 3 1"
    and "children (resizeEvent 100 50 (animate atCentre)) =
      map element (gridPoints (resizeEvent 100 50 (animate atCentre)))"
    and "isAnimating (resizeEvent 100 50 (animate atCentre))"
    and "pendingFrames (resizeEvent 100 50 (animate atCentre)) = [2]"
    by (simp_all add: n animate_atCentre)
  then show ?thesis
    by (simp add: animate_atCentre elements_of_grid)
qed

text \<open>
  C9.  A touch-start event with no touch point leaves the whole state as it is: the pointer
  and the driver with it.  With at least one touch point, the pointer becomes the first
  touch point, \<^verbatim>\<open>startAnimation\<close> is called, and the driver is running afterwards: a frame
  is requested if it was not running.
\<close>

theorem touchstart_pointer:
  "touchstart [] s = s \<and>
   touchstart (touch # rest) s =
     startAnimation (s\<lparr>mouseX := clientX touch, mouseY := clientY touch\<rparr>) \<and>
   mouseX (touchstart (touch # rest) s) = clientX touch \<and>
   mouseY (touchstart (touch # rest) s) = clientY touch \<and>
   isAnimating (touchstart (touch # rest) s) \<and>
   pendingFrames (touchstart (touch # rest) s) =
     (if isAnimating s then pendingFrames s else pendingFrames s @ [Suc (lastHandle s)])"
  by (simp add: touchstart_def startAnimation_def requestAnimationFrame_def Let_def)



end
